theory Spec2Isabelle
  imports Main "HOL-Library.Sublist"
begin

section \<open>JavaScript strings\<close>

text \<open>
  A JavaScript string is a sequence of UTF-16 code units; \<open>length\<close>, \<open>substring\<close>,
  \<open>startsWith\<close> and the regular expressions of the sources (none has the \<open>u\<close> flag) all
  work on code units. A code unit is modelled as a natural number, so that the bullet
  U+2022 and the Unicode white space of \<open>trim\<close> and \<open>\s\<close> are single characters as they
  are in the program. \<open>js\<close> embeds an ASCII literal.
\<close>

type_synonym jschar = nat
type_synonym jsstring = "jschar list"

definition js :: "string \<Rightarrow> jsstring" where
  "js s = map of_char s"

definition is_space :: "jschar \<Rightarrow> bool" where
  \<comment> \<open>WhiteSpace and LineTerminator of ECMAScript: the set of \<open>\s\<close> and of \<open>String.prototype.trim\<close>.\<close>
  "is_space c \<longleftrightarrow>
     c = 9 \<or> c = 10 \<or> c = 11 \<or> c = 12 \<or> c = 13 \<or> c = 32 \<or> c = 160 \<or> c = 5760
     \<or> (8192 \<le> c \<and> c \<le> 8202) \<or> c = 8232 \<or> c = 8233 \<or> c = 8239 \<or> c = 8287
     \<or> c = 12288 \<or> c = 65279"

definition is_newline :: "jschar \<Rightarrow> bool" where
  "is_newline c \<longleftrightarrow> c = 10"

definition is_digit :: "jschar \<Rightarrow> bool" where
  \<comment> \<open>\<open>\d\<close>: the ASCII digits.\<close>
  "is_digit c \<longleftrightarrow> 48 \<le> c \<and> c \<le> 57"

definition trim :: "jsstring \<Rightarrow> jsstring" where
  "trim s = rev (dropWhile is_space (rev (dropWhile is_space s)))"

definition startsWith :: "jsstring \<Rightarrow> jsstring \<Rightarrow> bool" where
  \<comment> \<open>\<open>s.startsWith(p)\<close>\<close>
  "startsWith s p \<longleftrightarrow> prefix p s"

fun includes_js :: "jsstring \<Rightarrow> jsstring \<Rightarrow> bool" where
  \<comment> \<open>\<open>s.includes(p)\<close>\<close>
  "includes_js [] p \<longleftrightarrow> p = []"
| "includes_js (c # cs) p \<longleftrightarrow> prefix p (c # cs) \<or> includes_js cs p"

definition ascii_upper :: "jschar \<Rightarrow> jschar" where
  \<comment> \<open>Canonicalize of a regular expression with the \<open>i\<close> flag and without the \<open>u\<close> flag,
      on the characters it can identify with an ASCII pattern character: a code unit
      above 127 is never mapped to an ASCII one.\<close>
  "ascii_upper c = (if 97 \<le> c \<and> c \<le> 122 then c - 32 else c)"

definition ascii_lower :: "jschar \<Rightarrow> jschar" where
  "ascii_lower c = (if 65 \<le> c \<and> c \<le> 90 then c + 32 else c)"

definition contains_ignoring_case :: "jsstring \<Rightarrow> jsstring \<Rightarrow> bool" where
  \<comment> \<open>\<open>p\<close> occurs in \<open>s\<close> when the ASCII letters of both are read in lower case\<close>
  "contains_ignoring_case s p \<longleftrightarrow> includes_js (map ascii_lower s) (map ascii_lower p)"

definition matches_ci :: "jsstring \<Rightarrow> jsstring \<Rightarrow> bool" where
  \<comment> \<open>the ASCII literal \<open>p\<close> matches at the start of \<open>s\<close>, ignoring case\<close>
  "matches_ci p s \<longleftrightarrow> prefix (map ascii_upper p) (map ascii_upper s)"

function split_runs :: "(jschar \<Rightarrow> bool) \<Rightarrow> jsstring \<Rightarrow> jsstring list" where
  \<comment> \<open>\<open>s.split(/[sep]+/)\<close>: the pieces between the maximal runs of separator characters;
      a string without separator (the empty one too) is its own single piece.\<close>
  "split_runs sep s =
     (case dropWhile (\<lambda>c. \<not> sep c) s of
        [] \<Rightarrow> [s]
      | r # rest \<Rightarrow> takeWhile (\<lambda>c. \<not> sep c) s # split_runs sep (dropWhile sep rest))"
  by pat_completeness auto
termination
proof (relation "measure (\<lambda>(sep, s). length s)")
  show "wf (measure (\<lambda>(sep, s). length s))" by simp
next
  fix sep :: "jschar \<Rightarrow> bool" and s :: jsstring and r rest
  assume d: "dropWhile (\<lambda>c. \<not> sep c) s = r # rest"
  have "length (dropWhile sep rest) \<le> length rest"
    by (rule length_dropWhile_le)
  also have "length rest < length (r # rest)" by simp
  also have "length (r # rest) \<le> length s"
    unfolding d [symmetric] by (rule length_dropWhile_le)
  finally show "((sep, dropWhile sep rest), (sep, s)) \<in> measure (\<lambda>(sep, s). length s)"
    by simp
qed

section \<open>Timers\<close>

text \<open>
  Both retry loops wait with
  \<open>const delay = Math.pow(2, n) * 1000; await new Promise(resolve => setTimeout(resolve, delay))\<close>.
  The timer of the platform is outside the repository: Node waits for the delay it is
  given only when that lies between 1 and \<open>TIMEOUT_MAX\<close> milliseconds, and for 1
  millisecond otherwise. The product is computed in floating point, where it is exact as
  long as it is finite; when it overflows, the timer is given infinity, replaces it by 1
  as well, and so agrees with the natural number below.
\<close>

definition TIMEOUT_MAX :: nat where
  "TIMEOUT_MAX = 2147483647"

definition setTimeout_delay :: "nat \<Rightarrow> nat" where
  \<comment> \<open>the milliseconds a timer set by \<open>setTimeout(f, delay)\<close> waits for\<close>
  "setTimeout_delay delay = (if 1 \<le> delay \<and> delay \<le> TIMEOUT_MAX then delay else 1)"

definition backoff_wait :: "nat \<Rightarrow> nat" where
  \<comment> \<open>the milliseconds waited for after the \<open>n\<close>-th failure\<close>
  "backoff_wait n = setTimeout_delay (2 ^ n * 1000)"

section \<open>Summarizer: \<open>src/modules/summarizer.js\<close>\<close>

datatype SummaryLength = short | medium | long | other_length jsstring

record SummarizerOptions =
  length_opt :: SummaryLength
  includeKeyPoints :: bool

record SummaryResult =
  summary :: jsstring
  keyPoints :: "jsstring list option"
  originalWordCount :: nat
  summaryWordCount :: nat

fun getLengthInstructions :: "SummaryLength \<Rightarrow> jsstring" where
  "getLengthInstructions short = js ''in a very concise way (about 1-2 paragraphs)''"
| "getLengthInstructions medium = js ''with moderate detail (about 3-4 paragraphs)''"
| "getLengthInstructions long =
     js ''comprehensively, covering all important aspects (about 5-7 paragraphs)''"
| "getLengthInstructions (other_length _) = js ''with moderate detail''"

definition generatePrompt :: "jsstring \<Rightarrow> SummarizerOptions \<Rightarrow> jsstring" where
  "generatePrompt content options =
     (let lengthInstructions = getLengthInstructions (length_opt options);
          keyPointsInstruction =
            (if includeKeyPoints options
             then js ''Include a section with 3-5 key points from the article.'' else [])
      in [10] @ js ''    Summarize the following article '' @ lengthInstructions @ js ''.'' @ [10]
         @ js ''    '' @ keyPointsInstruction @ [10]
         @ js ''    Focus on the main ideas and important details.'' @ [10]
         @ js ''    Use clear and concise language.'' @ [10]
         @ js ''    '' @ [10]
         @ js ''    ARTICLE:'' @ [10]
         @ js ''    '' @ content @ [10]
         @ js ''  '')"

definition countWords :: "jsstring \<Rightarrow> nat" where
  \<comment> \<open>\<open>text.split(/\s+/).filter(Boolean).length\<close>\<close>
  "countWords text = length (filter (\<lambda>w. w \<noteq> []) (split_runs is_space text))"

definition heading_phrases :: "jsstring list" where
  "heading_phrases =
     [js ''key points:'', js ''main points:'', js ''key takeaways:'', js ''main takeaways:'']"

definition heading_at :: "jsstring \<Rightarrow> bool" where
  \<comment> \<open>one of the alternatives of the regular expression matches at the start of \<open>s\<close>\<close>
  "heading_at s \<longleftrightarrow> list_ex (\<lambda>p. matches_ci p s) heading_phrases"

fun match_index :: "jsstring \<Rightarrow> nat option" where
  \<comment> \<open>\<open>summary.match(/key points:|main points:|key takeaways:|main takeaways:/i)\<close>:
      the index of the leftmost match, \<open>None\<close> for \<open>null\<close>.\<close>
  "match_index [] = None"
| "match_index (c # cs) =
     (if heading_at (c # cs) then Some 0 else map_option Suc (match_index cs))"

definition is_item :: "jsstring \<Rightarrow> bool" where
  \<comment> \<open>the filter of \<open>extractKeyPoints\<close>: the trimmed line starts with a hyphen, with a
      bullet, or matches \<open>/^\d+\./\<close>\<close>
  "is_item line \<longleftrightarrow>
     (let t = trim line
      in startsWith t [45] \<or> startsWith t [8226]
         \<or> (takeWhile is_digit t \<noteq> [] \<and> startsWith (dropWhile is_digit t) [46]))"

definition strip_marker :: "jsstring \<Rightarrow> jsstring" where
  \<comment> \<open>\<open>line.replace(/^[-\<bullet>\d.\s]+/, '')\<close>\<close>
  "strip_marker line =
     dropWhile (\<lambda>c. c = 45 \<or> c = 8226 \<or> is_digit c \<or> c = 46 \<or> is_space c) line"

definition extractKeyPoints :: "jsstring \<Rightarrow> jsstring \<times> jsstring list option" where
  \<comment> \<open>the pair is the object \<open>{summary, keyPoints}\<close>; \<open>None\<close> is \<open>undefined\<close>\<close>
  "extractKeyPoints summary_text =
     (case match_index summary_text of
        Some splitIndex \<Rightarrow>
          (let mainSummary = trim (take splitIndex summary_text);
               keyPointsSection = drop splitIndex summary_text;
               points =
                 filter (\<lambda>l. l \<noteq> [])
                   (map (\<lambda>line. trim (strip_marker line))
                     (filter is_item (drop 1 (split_runs is_newline keyPointsSection))))
           in (mainSummary, if length points > 0 then Some points else None))
      | None \<Rightarrow> (summary_text, None))"

section \<open>Errors: \<open>src/modules/utils/error.js\<close> and \<open>src/constants.js\<close>\<close>

datatype ErrorType =
  NETWORK | API | VALIDATION | EXTRACTION | SUMMARIZATION | FILE_SYSTEM | CONFIGURATION | UNKNOWN

datatype ctx_value = CStr jsstring | CNum int

text \<open>
  The values the sources throw and catch: a plain \<open>Error\<close> with its message, an error of
  the HTTP client (its \<open>code\<close>, the status and status text of its \<open>response\<close> when the
  server answered, whether a \<open>request\<close> was made, its message), and the \<open>AppError\<close> class.
\<close>

datatype js_error =
    JsError jsstring
  | AxiosError (err_code: "jsstring option") (err_response: "(int \<times> jsstring) option")
      (err_request: bool) (err_message: jsstring)
  | AppError (etype: ErrorType) (message: jsstring) (originalError: "js_error option")
      (err_context: "(jsstring \<times> ctx_value) list option")

datatype network_subtype = CONNECTION_FAILED | TIMEOUT | INVALID_URL | INVALID_RESPONSE

fun ERROR_MESSAGES_NETWORK :: "network_subtype \<Rightarrow> jsstring" where
  "ERROR_MESSAGES_NETWORK CONNECTION_FAILED = js ''Failed to connect to the server''"
| "ERROR_MESSAGES_NETWORK TIMEOUT = js ''Request timed out''"
| "ERROR_MESSAGES_NETWORK INVALID_URL = js ''Invalid URL format''"
| "ERROR_MESSAGES_NETWORK INVALID_RESPONSE = js ''Invalid response from server''"

definition ERROR_MESSAGES_UNKNOWN_GENERAL_ERROR :: jsstring where
  "ERROR_MESSAGES_UNKNOWN_GENERAL_ERROR = js ''An unexpected error occurred''"

definition createNetworkError ::
  "network_subtype \<Rightarrow> js_error \<Rightarrow> (jsstring \<times> ctx_value) list \<Rightarrow> js_error" where
  "createNetworkError subtype original ctx =
     AppError NETWORK (ERROR_MESSAGES_NETWORK subtype) (Some original) (Some ctx)"

definition createUnknownError ::
  "jsstring \<Rightarrow> js_error option \<Rightarrow> (jsstring \<times> ctx_value) list option \<Rightarrow> js_error" where
  "createUnknownError msg original ctx =
     AppError UNKNOWN (if msg \<noteq> [] then msg else ERROR_MESSAGES_UNKNOWN_GENERAL_ERROR) original ctx"

fun handleError :: "js_error \<Rightarrow> js_error" where
  "handleError (AppError t m orig ctx) = AppError t m orig ctx"
| "handleError (JsError m) = createUnknownError m (Some (JsError m)) None"
| "handleError (AxiosError c r q m) = createUnknownError m (Some (AxiosError c r q m)) None"

section \<open>Fetcher: \<open>src/modules/scraper.js\<close>\<close>

text \<open>
  The platform's \<open>URL\<close> class and the HTTP client are outside the repository. The
  constructor \<open>new URL(s)\<close> is a parameter that either throws or gives the parsed URL,
  of which the sources read \<open>toString()\<close> and \<open>hostname\<close>. The network is a parameter
  too: \<open>axios_get k url config\<close> is the outcome of the \<open>k\<close>-th call (counted from 0) of
  \<open>axios.get(url, config)\<close> within one fetch. The two scans of the page by regular
  expressions, \<open>extractTitle\<close> and \<open>extractMetadata\<close>, fill two fields of the result on
  which nothing below depends; they are parameters as well. Progress notifications are
  left out.
\<close>

record URL =
  href :: jsstring
  hostname :: jsstring

type_synonym URL_ctor = "jsstring \<Rightarrow> js_error + URL"

record ScraperConfig =
  timeout :: int
  retries :: int
  userAgent :: jsstring

record RequestConfig =
  req_timeout :: int
  req_headers :: "(jsstring \<times> jsstring) list"
  maxRedirects :: nat

record http_response =
  data :: jsstring
  headers :: "jsstring \<rightharpoonup> jsstring"

datatype http_outcome = HttpResolved http_response | HttpRejected js_error

record ScraperResult =
  html :: jsstring
  url :: jsstring
  title :: "jsstring option"
  metadata :: "(jsstring \<times> jsstring) list"

record scraper_env =
  new_URL :: URL_ctor
  axios_get :: "nat \<Rightarrow> jsstring \<Rightarrow> RequestConfig \<Rightarrow> http_outcome"
  extractTitle_html :: "jsstring \<Rightarrow> jsstring option"
  extractMetadata_html :: "jsstring \<Rightarrow> (jsstring \<times> jsstring) list"

definition validateUrl :: "URL_ctor \<Rightarrow> jsstring \<Rightarrow> js_error + jsstring" where
  "validateUrl ctor u =
     (let u' = (if \<not> startsWith u (js ''http://'') \<and> \<not> startsWith u (js ''https://'')
                then js ''https://'' @ u else u)
      in case ctor u' of
           Inr parsedUrl \<Rightarrow> Inr (href parsedUrl)
         | Inl error \<Rightarrow> Inl (createNetworkError INVALID_URL error [(js ''url'', CStr u')]))"

text \<open>
  The retry loop of \<open>scrapeUrl\<close>. Besides the three variables of the source
  (\<open>response\<close>, \<open>attempts\<close>, \<open>lastError\<close>) the state records what the loop did: how many
  times it called \<open>axios.get\<close> and the milliseconds its timers waited for, in order.
\<close>

record fetch_state =
  response :: "http_response option"
  attempts :: nat
  lastError :: "js_error option"
  requests :: nat
  delays :: "nat list"

definition fetch_init :: fetch_state where
  "fetch_init = \<lparr>response = None, attempts = 0, lastError = None, requests = 0, delays = []\<rparr>"

function fetch_loop :: "(nat \<Rightarrow> http_outcome) \<Rightarrow> int \<Rightarrow> fetch_state \<Rightarrow> fetch_state" where
  "fetch_loop get r st =
     (if int (attempts st) \<le> r then
        (case get (requests st) of
           HttpResolved resp \<Rightarrow> st\<lparr>response := Some resp, requests := Suc (requests st)\<rparr>
         | HttpRejected error \<Rightarrow>
             (if int (Suc (attempts st)) > r
              then st\<lparr>lastError := Some error, attempts := Suc (attempts st),
                      requests := Suc (requests st)\<rparr>
              else fetch_loop get r
                     (st\<lparr>lastError := Some error, attempts := Suc (attempts st),
                         requests := Suc (requests st),
                         delays := delays st @ [backoff_wait (Suc (attempts st))]\<rparr>)))
      else st)"
  by pat_completeness auto
termination
  by (relation "measure (\<lambda>(get, r, st). nat (r + 1 - int (attempts st)))") auto

record fetch_trace =
  requests_made :: nat
  delays_waited :: "nat list"

definition trace_of :: "fetch_state \<Rightarrow> fetch_trace" where
  "trace_of st = \<lparr>requests_made = requests st, delays_waited = delays st\<rparr>"

definition contentType_of :: "http_response \<Rightarrow> jsstring" where
  \<comment> \<open>\<open>response.headers['content-type'] || ''\<close>\<close>
  "contentType_of resp = (case headers resp (js ''content-type'') of Some c \<Rightarrow> c | None \<Rightarrow> [])"

definition is_html :: "jsstring \<Rightarrow> bool" where
  \<comment> \<open>the content type names an HTML media type\<close>
  "is_html contentType \<longleftrightarrow>
     includes_js contentType (js ''text/html'') \<or> includes_js contentType (js ''application/xhtml+xml'')"

definition no_response_error :: "ScraperConfig \<Rightarrow> jsstring \<Rightarrow> js_error option \<Rightarrow> js_error" where
  \<comment> \<open>what \<open>scrapeUrl\<close> throws when the loop has left \<open>response\<close> null\<close>
  "no_response_error cfg normalizedUrl lastErr =
     (case lastErr of
        None \<Rightarrow>
          createNetworkError CONNECTION_FAILED (JsError (js ''Failed to fetch URL after retries''))
            [(js ''url'', CStr normalizedUrl)]
      | Some e \<Rightarrow>
          (case e of
             AxiosError c resp req m \<Rightarrow>
               (if c = Some (js ''ECONNABORTED'') then
                  createNetworkError TIMEOUT e
                    [(js ''url'', CStr normalizedUrl), (js ''timeout'', CNum (timeout cfg))]
                else if c = Some (js ''ENOTFOUND'') then
                  createNetworkError CONNECTION_FAILED e [(js ''url'', CStr normalizedUrl)]
                else (case resp of
                        Some (status, statusText) \<Rightarrow>
                          createNetworkError CONNECTION_FAILED e
                            [(js ''url'', CStr normalizedUrl), (js ''status'', CNum status),
                             (js ''statusText'', CStr statusText)]
                      | None \<Rightarrow>
                          createNetworkError CONNECTION_FAILED e [(js ''url'', CStr normalizedUrl)]))
           | _ \<Rightarrow> createNetworkError CONNECTION_FAILED e [(js ''url'', CStr normalizedUrl)]))"

definition requestConfig :: "ScraperConfig \<Rightarrow> RequestConfig" where
  "requestConfig cfg =
     \<lparr>req_timeout = timeout cfg,
      req_headers =
        [(js ''User-Agent'', userAgent cfg),
         (js ''Accept'', js ''text/html,application/xhtml+xml,application/xml''),
         (js ''Accept-Language'', js ''en-US,en;q=0.9'')],
      maxRedirects = 5\<rparr>"

definition scrape_try ::
  "scraper_env \<Rightarrow> ScraperConfig \<Rightarrow> jsstring \<Rightarrow> (js_error + ScraperResult) \<times> fetch_trace" where
  \<comment> \<open>the \<open>try\<close> block of \<open>scrapeUrl\<close>\<close>
  "scrape_try env cfg u =
     (case validateUrl (new_URL env) u of
        Inl e \<Rightarrow> (Inl e, trace_of fetch_init)
      | Inr normalizedUrl \<Rightarrow>
          (let st = fetch_loop (\<lambda>k. axios_get env k normalizedUrl (requestConfig cfg))
                      (retries cfg) fetch_init
           in case response st of
                None \<Rightarrow> (Inl (no_response_error cfg normalizedUrl (lastError st)), trace_of st)
              | Some resp \<Rightarrow>
                  (let contentType = contentType_of resp
                   in if \<not> includes_js contentType (js ''text/html'')
                         \<and> \<not> includes_js contentType (js ''application/xhtml+xml'')
                      then (Inl (createNetworkError INVALID_RESPONSE
                                   (JsError (js ''Response is not HTML content''))
                                   [(js ''url'', CStr normalizedUrl),
                                    (js ''contentType'', CStr contentType)]),
                            trace_of st)
                      else (Inr \<lparr>html = data resp, url = normalizedUrl,
                                  title = extractTitle_html env (data resp),
                                  metadata = extractMetadata_html env (data resp)\<rparr>,
                            trace_of st))))"

definition handleAxiosResponseError :: "js_error \<Rightarrow> jsstring \<Rightarrow> js_error" where
  \<comment> \<open>called for an error that has a \<open>response\<close>; it always throws, and the result is
      what it throws\<close>
  "handleAxiosResponseError error u =
     (case err_response error of
        Some (status, statusText) \<Rightarrow>
          (if status = 404 then
             createNetworkError CONNECTION_FAILED error
               [(js ''url'', CStr u), (js ''status'', CNum status),
                (js ''message'', CStr (js ''Page not found''))]
           else if status = 403 then
             createNetworkError CONNECTION_FAILED error
               [(js ''url'', CStr u), (js ''status'', CNum status),
                (js ''message'', CStr (js ''Access forbidden''))]
           else if status \<ge> 500 then
             createNetworkError CONNECTION_FAILED error
               [(js ''url'', CStr u), (js ''status'', CNum status),
                (js ''message'', CStr (js ''Server error''))]
           else
             createNetworkError CONNECTION_FAILED error
               [(js ''url'', CStr u), (js ''status'', CNum status),
                (js ''statusText'', CStr statusText)])
      | None \<Rightarrow> createNetworkError CONNECTION_FAILED error [(js ''url'', CStr u)])"

definition scrape_catch :: "ScraperConfig \<Rightarrow> jsstring \<Rightarrow> js_error \<Rightarrow> js_error" where
  \<comment> \<open>the \<open>catch\<close> block of \<open>scrapeUrl\<close>: every path throws, and the result is what is thrown\<close>
  "scrape_catch cfg u error =
     (case error of
        AppError t m orig ctx \<Rightarrow> error
      | AxiosError c resp req m \<Rightarrow>
          (if resp \<noteq> None then handleAxiosResponseError error u
           else if req then
             createNetworkError CONNECTION_FAILED error
               [(js ''url'', CStr u), (js ''timeout'', CNum (timeout cfg))]
           else handleError error)
      | JsError m \<Rightarrow> handleError error)"

definition scrapeUrl ::
  "scraper_env \<Rightarrow> ScraperConfig \<Rightarrow> jsstring \<Rightarrow> (js_error + ScraperResult) \<times> fetch_trace" where
  "scrapeUrl env cfg u =
     (case scrape_try env cfg u of
        (Inl error, tr) \<Rightarrow> (Inl (scrape_catch cfg u error), tr)
      | (Inr result, tr) \<Rightarrow> (Inr result, tr))"

section \<open>Summarizer: the call of the generative service\<close>

text \<open>
  The generative service is a parameter: \<open>generateContent k prompt\<close> is the outcome of
  the \<open>k\<close>-th call (counted from 0) within one \<open>summarize\<close>, either a response with its
  optional \<open>text\<close> or a thrown error. The environment also holds the credential of
  \<open>process.env\<close> and whether the client handle is already cached.
\<close>

datatype ai_outcome = AiResolved "jsstring option" | AiRejected js_error

record summarizer_env =
  aiInstance :: bool
  GEMINI_API_KEY :: "jsstring option"
  generateContent :: "nat \<Rightarrow> jsstring \<Rightarrow> ai_outcome"

definition getApiKey :: "jsstring option \<Rightarrow> js_error + jsstring" where
  "getApiKey k =
     (case k of
        Some apiKey \<Rightarrow>
          (if apiKey \<noteq> [] then Inr apiKey
           else Inl (JsError (js ''GEMINI_API_KEY environment variable is not set. Please add it to your .env file.'')))
      | None \<Rightarrow>
          Inl (JsError (js ''GEMINI_API_KEY environment variable is not set. Please add it to your .env file.'')))"

definition initializeModel :: "summarizer_env \<Rightarrow> js_error + unit" where
  "initializeModel env =
     (if \<not> aiInstance env
      then (case getApiKey (GEMINI_API_KEY env) of Inl e \<Rightarrow> Inl e | Inr apiKey \<Rightarrow> Inr ())
      else Inr ())"

definition maxRetries :: nat where
  "maxRetries = 3"

function generate_loop ::
  "(nat \<Rightarrow> ai_outcome) \<Rightarrow> nat \<Rightarrow> nat \<Rightarrow> js_error option \<Rightarrow> nat list
     \<Rightarrow> (js_error + SummaryResult) \<times> nat list" where
  \<comment> \<open>the \<open>while\<close> loop of \<open>summarize\<close> with the \<open>throw\<close> after it; the second component
      lists the delays in milliseconds the loop waited for; \<open>retried\<close> is the variable
      \<open>retries\<close> of the source\<close>
  "generate_loop gen owc retried error waited =
     (if retried < maxRetries then
        (case gen retried of
           AiResolved response_text \<Rightarrow>
             (let summaryText = (case response_text of Some t \<Rightarrow> t | None \<Rightarrow> []);
                  (summary_part, keyPoints_part) = extractKeyPoints summaryText;
                  swc = countWords summary_part
              in (Inr \<lparr>summary = summary_part, keyPoints = keyPoints_part,
                         originalWordCount = owc, summaryWordCount = swc\<rparr>, waited))
         | AiRejected err \<Rightarrow>
             generate_loop gen owc (Suc retried) (Some err)
               (waited @ [backoff_wait (Suc retried)]))
      else
        (Inl (case error of
                Some e \<Rightarrow> e
              | None \<Rightarrow> JsError (js ''Failed to generate summary after multiple attempts'')),
         waited))"
  by pat_completeness auto
termination
  by (relation "measure (\<lambda>(gen, owc, retried, error, waited). maxRetries - retried)") auto

definition failure_summary :: jsstring where
  "failure_summary = js ''Failed to generate summary. Please try again later.''"

definition summarize ::
  "summarizer_env \<Rightarrow> jsstring \<Rightarrow> SummarizerOptions
     \<Rightarrow> (js_error + SummaryResult) \<times> nat list" where
  \<comment> \<open>\<open>Inl\<close> would be an error thrown to the caller\<close>
  "summarize env content options =
     (let owc = countWords content;
          attempt =
            (case initializeModel env of
               Inl e \<Rightarrow> (Inl e, [])
             | Inr ai \<Rightarrow>
                 (let prompt = generatePrompt content options
                  in generate_loop (\<lambda>k. generateContent env k prompt) owc 0 None []))
      in case attempt of
           (Inr result, waited) \<Rightarrow> (Inr result, waited)
         | (Inl error, waited) \<Rightarrow>
             (Inr \<lparr>summary = failure_summary, keyPoints = None,
                    originalWordCount = owc, summaryWordCount = 0\<rparr>, waited))"

section \<open>Extractor: \<open>src/modules/extractor.ts\<close>\<close>

text \<open>
  The HTML query library is outside the repository, and the functions below use three
  of its operations on a loaded document: \<open>$(selector)\<close>, the selection of the matching
  elements in document order; \<open>selection.find(selector)\<close>, the matching descendants of
  the elements of a selection in document order; and \<open>selection.text()\<close>. A loaded
  document is therefore a parameter with these three operations, over any type of
  elements; a selection is a list of elements, \<open>first()\<close> is \<open>take 1\<close> and \<open>length\<close> is
  the length of the list.
\<close>

record 'e cheerio =
  query :: "jsstring \<Rightarrow> 'e list"
  find_in :: "'e list \<Rightarrow> jsstring \<Rightarrow> 'e list"
  text_of :: "'e list \<Rightarrow> jsstring"

definition titleSelectors :: "jsstring list" where
  "titleSelectors =
     [js ''h1.article-title'', js ''h1.entry-title'', js ''h1.post-title'', js ''h1.title'',
      js ''article h1'', js ''main h1'', js ''.article h1'', js ''.post h1'', js ''h1'']"

fun title_loop :: "'e cheerio \<Rightarrow> jsstring list \<Rightarrow> jsstring option" where
  \<comment> \<open>the \<open>for\<close> loop of \<open>extractTitle\<close>; \<open>None\<close> when the loop ends without returning\<close>
  "title_loop Q [] = None"
| "title_loop Q (selector # rest) =
     (let titleElement = take 1 (query Q selector)
      in if length titleElement > 0 then Some (trim (text_of Q titleElement))
         else title_loop Q rest)"

definition first_match_text :: "'e cheerio \<Rightarrow> jsstring \<Rightarrow> jsstring" where
  \<comment> \<open>\<open>$(selector).first().text().trim()\<close>\<close>
  "first_match_text Q selector = trim (text_of Q (take 1 (query Q selector)))"

definition extractTitle :: "'e cheerio \<Rightarrow> jsstring option" where
  \<comment> \<open>\<open>None\<close> is \<open>undefined\<close>\<close>
  "extractTitle Q =
     (case title_loop Q titleSelectors of
        Some t \<Rightarrow> Some t
      | None \<Rightarrow>
          (let t = trim (text_of Q (query Q (js ''title'')))
           in if t \<noteq> [] then Some t else None))"

definition extractContent_title :: "'e cheerio \<Rightarrow> URL_ctor \<Rightarrow> jsstring \<Rightarrow> js_error + jsstring" where
  \<comment> \<open>\<open>const title = extractTitle($) || new URL(url).hostname\<close> of \<open>extractContent\<close>\<close>
  "extractContent_title Q ctor u =
     (let t = extractTitle Q
      in if t \<noteq> None \<and> t \<noteq> Some [] then Inr (the t)
         else (case ctor u of Inl e \<Rightarrow> Inl e | Inr parsed \<Rightarrow> Inr (hostname parsed)))"

definition contentSelectors :: "jsstring list" where
  "contentSelectors =
     [js ''article'', js ''.article'', js ''.post'', js ''.entry-content'', js ''.article-content'',
      js ''.post-content'', js ''.content'', js ''main'', js ''#main'', js ''#content'']"

fun content_loop :: "'e cheerio \<Rightarrow> jsstring list \<Rightarrow> 'e list option" where
  \<comment> \<open>the \<open>for\<close> loop of \<open>findMainContent\<close>\<close>
  "content_loop Q [] = None"
| "content_loop Q (selector # rest) =
     (let contentElement = take 1 (query Q selector)
      in if length contentElement > 0 \<and> length (trim (text_of Q contentElement)) > 200
         then Some contentElement
         else content_loop Q rest)"

definition paragraphContainers :: "'e cheerio \<Rightarrow> ('e \<times> nat) list" where
  \<comment> \<open>the array filled by the \<open>each\<close> callback: element and paragraph count\<close>
  "paragraphContainers Q =
     filter (\<lambda>(element, count). count > 2)
       (map (\<lambda>element. (element, length (find_in Q [element] (js ''p''))))
          (find_in Q (query Q (js ''body'')) (js ''div, section, main'')))"

definition sort_by_count_desc :: "('e \<times> nat) list \<Rightarrow> ('e \<times> nat) list" where
  \<comment> \<open>\<open>sort((a, b) => b.count - a.count)\<close>; \<open>Array.prototype.sort\<close> is stable\<close>
  "sort_by_count_desc xs = sort_key (\<lambda>(element, count). - int count) xs"

definition findMainContent :: "'e cheerio \<Rightarrow> 'e list" where
  "findMainContent Q =
     (case content_loop Q contentSelectors of
        Some contentElement \<Rightarrow> contentElement
      | None \<Rightarrow>
          (case sort_by_count_desc (paragraphContainers Q) of
             first_container # others \<Rightarrow> [fst first_container]
           | [] \<Rightarrow> query Q (js ''body'')))"

section \<open>Formatter: \<open>src/modules/converter.js\<close>\<close>

text \<open>
  The Markdown converter is outside the repository: \<open>TurndownService\<close> is a parameter
  that gives, for the three options the service is constructed with, the conversion of
  the service with the \<open>codeBlocks\<close> rule added. The clock and the date functions of the
  platform are parameters too: \<open>now\<close> is what \<open>new Date()\<close> reads, in milliseconds;
  \<open>Date_ctor\<close> is \<open>new Date(string)\<close>; \<open>toLocaleDateString\<close> and \<open>toISOString\<close> depend on
  the locale and the time zone of the process.
\<close>

datatype js_date = Date int | InvalidDate

record js_runtime =
  now :: int
  Date_ctor :: "jsstring \<Rightarrow> js_date"
  toLocaleDateString :: "js_date \<Rightarrow> jsstring"
  toISOString :: "js_date \<Rightarrow> jsstring"

record ConverterOptions =
  includeMetadata :: bool
  codeBlockStyle :: jsstring
  headingStyle :: jsstring
  bulletListMarker :: jsstring

record PartialConverterOptions =
  includeMetadata_opt :: "bool option"
  codeBlockStyle_opt :: "jsstring option"
  headingStyle_opt :: "jsstring option"
  bulletListMarker_opt :: "jsstring option"

record TurndownOptions =
  td_headingStyle :: jsstring
  td_codeBlockStyle :: jsstring
  td_bulletListMarker :: jsstring

type_synonym TurndownService = "TurndownOptions \<Rightarrow> jsstring \<Rightarrow> jsstring"

record doc_metadata =
  meta_title :: "jsstring option"
  meta_url :: "jsstring option"
  meta_date :: "jsstring option"

record ConversionResult =
  markdown :: jsstring
  conv_metadata :: "doc_metadata option"

definition getDefaultOptions :: ConverterOptions where
  "getDefaultOptions =
     \<lparr>includeMetadata = True, codeBlockStyle = js ''fenced'', headingStyle = js ''atx'',
      bulletListMarker = js ''-''\<rparr>"

definition merge_options :: "ConverterOptions \<Rightarrow> PartialConverterOptions option \<Rightarrow> ConverterOptions" where
  \<comment> \<open>\<open>{ ...defaults, ...options }\<close>\<close>
  "merge_options d options =
     (case options of
        None \<Rightarrow> d
      | Some p \<Rightarrow>
          \<lparr>includeMetadata = (case includeMetadata_opt p of Some v \<Rightarrow> v | None \<Rightarrow> includeMetadata d),
           codeBlockStyle = (case codeBlockStyle_opt p of Some v \<Rightarrow> v | None \<Rightarrow> codeBlockStyle d),
           headingStyle = (case headingStyle_opt p of Some v \<Rightarrow> v | None \<Rightarrow> headingStyle d),
           bulletListMarker =
             (case bulletListMarker_opt p of Some v \<Rightarrow> v | None \<Rightarrow> bulletListMarker d)\<rparr>)"

definition configureTurndown :: "TurndownService \<Rightarrow> ConverterOptions \<Rightarrow> jsstring \<Rightarrow> jsstring" where
  "configureTurndown service options =
     service \<lparr>td_headingStyle = headingStyle options, td_codeBlockStyle = codeBlockStyle options,
              td_bulletListMarker = bulletListMarker options\<rparr>"

definition convertToMarkdown ::
  "js_runtime \<Rightarrow> TurndownService \<Rightarrow> jsstring \<Rightarrow> PartialConverterOptions option
     \<Rightarrow> ConversionResult" where
  "convertToMarkdown rt service content options =
     (let converterOptions = merge_options getDefaultOptions options;
          turndownService = configureTurndown service converterOptions;
          md = turndownService content
      in \<lparr>markdown = md,
          conv_metadata =
            (if includeMetadata converterOptions
             then Some \<lparr>meta_title = Some [], meta_url = Some [],
                         meta_date = Some (toISOString rt (Date (now rt)))\<rparr>
             else None)\<rparr>)"

definition truthy :: "jsstring option \<Rightarrow> bool" where
  \<comment> \<open>a string property in a condition: neither \<open>undefined\<close> nor the empty string\<close>
  "truthy v \<longleftrightarrow> v \<noteq> None \<and> v \<noteq> Some []"

definition formatOutput :: "js_runtime \<Rightarrow> jsstring \<Rightarrow> doc_metadata \<Rightarrow> jsstring" where
  "formatOutput rt md m =
     (let formattedDate =
            (if truthy (meta_date m) then toLocaleDateString rt (Date_ctor rt (the (meta_date m)))
             else toLocaleDateString rt (Date (now rt)));
          output = [];
          output = (if truthy (meta_title m)
                    then output @ js ''# '' @ the (meta_title m) @ [10, 10] else output);
          output = output @ js ''## Article Information'' @ [10, 10];
          output = (if truthy (meta_url m)
                    then output @ js ''**Source:** ['' @ the (meta_url m) @ js '']('' @ the (meta_url m)
                         @ js '')'' @ [10, 10]
                    else output);
          output = output @ js ''**Date Summarized:** '' @ formattedDate @ [10, 10];
          output = output @ js ''---'' @ [10, 10];
          output = output @ js ''## Summary'' @ [10, 10];
          output = output @ md
      in output)"

definition render ::
  "js_runtime \<Rightarrow> TurndownService \<Rightarrow> jsstring \<Rightarrow> doc_metadata \<Rightarrow> jsstring" where
  \<comment> \<open>steps 4 and 5 of \<open>summarizeArticle\<close>: convert the summary, then format it with the
      metadata\<close>
  "render rt service summaryText m =
     formatOutput rt (markdown (convertToMarkdown rt service summaryText None)) m"

section \<open>Example inputs\<close>

definition failing_env :: summarizer_env where
  \<comment> \<open>a service that rejects every call\<close>
  "failing_env =
     \<lparr>aiInstance = False, GEMINI_API_KEY = Some (js ''key''),
      generateContent = (\<lambda>k prompt. AiRejected (JsError (js ''service unavailable'')))\<rparr>"

definition medium_options :: SummarizerOptions where
  "medium_options = \<lparr>length_opt = medium, includeKeyPoints = True\<rparr>"

definition toy_URL :: URL_ctor where
  \<comment> \<open>a constructor that accepts one string only\<close>
  "toy_URL s =
     (if s = js ''https://example.com''
      then Inr \<lparr>href = js ''https://example.com/'', hostname = js ''example.com''\<rparr>
      else Inl (JsError (js ''Invalid URL'')))"

definition default_scraper_config :: ScraperConfig where
  "default_scraper_config =
     \<lparr>timeout = 10000, retries = 3,
      userAgent = js ''Mozilla/5.0 (compatible; ArticleSummarizer/1.0)''\<rparr>"


definition timeout_error :: js_error where
  "timeout_error = AxiosError (Some (js ''ECONNABORTED'')) None True (js ''timeout of 10000ms exceeded'')"

definition json_response :: http_response where
  "json_response = \<lparr>data = js ''{}'', headers = [js ''content-type'' \<mapsto> js ''application/json'']\<rparr>"


definition json_env :: scraper_env where
  "json_env =
     \<lparr>new_URL = toy_URL, axios_get = (\<lambda>k u c. HttpResolved json_response),
      extractTitle_html = (\<lambda>h. None), extractMetadata_html = (\<lambda>h. [])\<rparr>"

definition flaky_json_env :: scraper_env where
  "flaky_json_env =
     \<lparr>new_URL = toy_URL,
      axios_get = (\<lambda>k u c. if k = 0 then HttpRejected timeout_error else HttpResolved json_response),
      extractTitle_html = (\<lambda>h. None), extractMetadata_html = (\<lambda>h. [])\<rparr>"

definition elements_text :: "(nat \<Rightarrow> jsstring) \<Rightarrow> nat list \<Rightarrow> jsstring" where
  \<comment> \<open>the text of a selection: the texts of its elements, one after the other\<close>
  "elements_text t es = concat (map t es)"

definition empty_heading_doc :: "nat cheerio" where
  \<comment> \<open>\<open><html><head><title>T</title></head><body><h1></h1></body></html>\<close>: element 0 is
      the heading, element 1 the title\<close>
  "empty_heading_doc =
     \<lparr>query = (\<lambda>s. if s = js ''h1'' then [0] else if s = js ''title'' then [1] else []),
      find_in = (\<lambda>es s. []),
      text_of = elements_text (\<lambda>e. if e = 1 then js ''T'' else [])\<rparr>"

definition heading_doc :: "nat cheerio" where
  \<comment> \<open>\<open><html><head><title>T</title></head><body><h1> Hello </h1></body></html>\<close>\<close>
  "heading_doc =
     \<lparr>query = (\<lambda>s. if s = js ''h1'' then [0] else if s = js ''title'' then [1] else []),
      find_in = (\<lambda>es s. []),
      text_of = elements_text (\<lambda>e. if e = 1 then js ''T'' else js '' Hello '')\<rparr>"

definition two_articles_doc :: "nat cheerio" where
  \<comment> \<open>a body (element 0) with two \<open>article\<close> elements: element 1 holds the six characters
      \<open>Teaser\<close>, element 2 holds 201 characters\<close>
  "two_articles_doc =
     \<lparr>query = (\<lambda>s. if s = js ''article'' then [1, 2] else if s = js ''body'' then [0] else []),
      find_in = (\<lambda>es s. []),
      text_of = elements_text
        (\<lambda>e. if e = 1 then js ''Teaser'' else if e = 2 then replicate 201 120
             else js ''Teaser'' @ replicate 201 120)\<rparr>"

definition article_and_div_doc :: "nat cheerio" where
  \<comment> \<open>a body (element 0) with an \<open>article\<close> (element 1) of 201 characters without
      paragraphs, and a \<open>div\<close> (element 2) of five paragraphs (elements 3 to 7)\<close>
  "article_and_div_doc =
     \<lparr>query = (\<lambda>s. if s = js ''article'' then [1] else if s = js ''body'' then [0] else []),
      find_in = (\<lambda>es s. if es = [0] \<and> s = js ''div, section, main'' then [2]
                         else if es = [2] \<and> s = js ''p'' then [3, 4, 5, 6, 7] else []),
      text_of = elements_text (\<lambda>e. if e = 1 then replicate 201 120 else js ''p'')\<rparr>"

definition three_divs_doc :: "nat cheerio" where
  \<comment> \<open>a body (element 0) with three \<open>div\<close> elements 1, 2 and 3 in this order, holding 3,
      5 and 5 paragraphs\<close>
  "three_divs_doc =
     \<lparr>query = (\<lambda>s. if s = js ''body'' then [0] else []),
      find_in = (\<lambda>es s. if es = [0] \<and> s = js ''div, section, main'' then [1, 2, 3]
                         else if es = [1] \<and> s = js ''p'' then [10, 11, 12]
                         else if es = [2] \<and> s = js ''p'' then [20, 21, 22, 23, 24]
                         else if es = [3] \<and> s = js ''p'' then [30, 31, 32, 33, 34]
                         else []),
      text_of = elements_text (\<lambda>e. js ''p'')\<rparr>"

definition sample_runtime :: js_runtime where
  \<comment> \<open>a process whose clock reads the first instant of 1970, in a US locale and in UTC\<close>
  "sample_runtime =
     \<lparr>now = 0,
      Date_ctor = (\<lambda>s. if s = js ''1970-01-01T00:00:00.000Z'' then Date 0 else InvalidDate),
      toLocaleDateString =
        (\<lambda>d. case d of
               Date t \<Rightarrow> if t < 86400000 then js ''1/1/1970'' else js ''1/2/1970''
             | InvalidDate \<Rightarrow> js ''Invalid Date''),
      toISOString = (\<lambda>d. js ''1970-01-01T00:00:00.000Z'')\<rparr>"

definition plain_turndown :: TurndownService where
  \<comment> \<open>on text without markup the converter changes nothing\<close>
  "plain_turndown options content = content"

definition sample_metadata :: doc_metadata where
  "sample_metadata =
     \<lparr>meta_title = Some (js ''T''), meta_url = Some (js ''https://example.com/''),
      meta_date = Some (js ''1970-01-01T00:00:00.000Z'')\<rparr>"

definition undated_metadata :: doc_metadata where
  "undated_metadata =
     \<lparr>meta_title = Some (js ''T''), meta_url = Some (js ''https://example.com/''),
      meta_date = None\<rparr>"

declare split_runs.simps [simp del] fetch_loop.simps [simp del] generate_loop.simps [simp del]

section \<open>Strings: facts used below\<close>

lemmas str_defs = js_def trim_def is_space_def is_digit_def is_newline_def startsWith_def

lemma ascii_fold_eq: "ascii_upper a = ascii_upper b \<longleftrightarrow> ascii_lower a = ascii_lower b"
  unfolding ascii_upper_def ascii_lower_def by (simp split: if_splits) arith

lemma prefix_fold_eq:
  "prefix (map ascii_upper p) (map ascii_upper s)
     \<longleftrightarrow> prefix (map ascii_lower p) (map ascii_lower s)"
proof (induction p arbitrary: s)
  case Nil
  show ?case by simp
next
  case (Cons a p)
  show ?case
  proof (cases s)
    case Nil
    then show ?thesis by simp
  next
    case (Cons b t)
    with Cons.IH [of t] show ?thesis by (simp add: ascii_fold_eq)
  qed
qed

section \<open>Summarizer: the search for the heading\<close>

lemma heading_at_iff:
  "heading_at s \<longleftrightarrow> (\<exists>p\<in>set heading_phrases. prefix (map ascii_lower p) (map ascii_lower s))"
  by (simp add: heading_at_def list_ex_iff matches_ci_def prefix_fold_eq)

lemma heading_phrases_nonempty: "[] \<notin> set heading_phrases"
  by (simp add: heading_phrases_def js_def)

lemma heading_at_nonempty: "heading_at s \<Longrightarrow> s \<noteq> []"
  using heading_phrases_nonempty by (auto simp: heading_at_iff)

text \<open>
  The regular expression finds no heading exactly when the text contains none of the
  four phrases, ignoring the case of ASCII letters.
\<close>

lemma match_index_None_iff:
  "match_index s = None \<longleftrightarrow> (\<forall>p\<in>set heading_phrases. \<not> contains_ignoring_case s p)"
proof (induction s)
  case Nil
  show ?case using heading_phrases_nonempty by (auto simp: contains_ignoring_case_def)
next
  case (Cons c cs)
  show ?case
    using Cons.IH by (auto simp: contains_ignoring_case_def heading_at_iff)
qed

text \<open>The index found is that of the leftmost match.\<close>

lemma match_index_append:
  "heading_at rest \<Longrightarrow> \<forall>j<length pre. \<not> heading_at (drop j (pre @ rest))
     \<Longrightarrow> match_index (pre @ rest) = Some (length pre)"
proof (induction pre)
  case Nil
  then obtain c cs where "rest = c # cs"
    using heading_at_nonempty by (cases rest) auto
  with Nil show ?case by simp
next
  case (Cons a pre)
  from Cons.prems(2) have first: "\<not> heading_at (a # pre @ rest)"
    by (metis append_Cons drop0 length_greater_0_conv list.distinct(1))
  have "\<forall>j<length pre. \<not> heading_at (drop j (pre @ rest))"
  proof (intro allI impI)
    fix j assume "j < length pre"
    then have "Suc j < length (a # pre)" by simp
    with Cons.prems(2) have "\<not> heading_at (drop (Suc j) ((a # pre) @ rest))" by blast
    then show "\<not> heading_at (drop j (pre @ rest))" by simp
  qed
  with Cons.IH Cons.prems(1) have "match_index (pre @ rest) = Some (length pre)" by blast
  with first show ?case by simp
qed

lemma match_index_SomeD:
  "match_index s = Some i
     \<Longrightarrow> i < length s \<and> heading_at (drop i s) \<and> (\<forall>j<i. \<not> heading_at (drop j s))"
proof (induction s arbitrary: i)
  case Nil
  then show ?case by simp
next
  case (Cons c cs)
  show ?case
  proof (cases "heading_at (c # cs)")
    case True
    with Cons.prems show ?thesis by simp
  next
    case False
    with Cons.prems obtain k where k: "match_index cs = Some k" "i = Suc k" by auto
    from Cons.IH [OF k(1)] have ih: "k < length cs" "heading_at (drop k cs)"
      "\<forall>j<k. \<not> heading_at (drop j cs)" by simp_all
    have "\<not> heading_at (drop j (c # cs))" if "j < i" for j
    proof (cases j)
      case 0
      with False show ?thesis by simp
    next
      case (Suc j')
      with that k(2) ih(3) show ?thesis by simp
    qed
    with ih k(2) show ?thesis by simp
  qed
qed

section \<open>Summarizer: the retry loop\<close>

lemma generate_loop_all_rejected:
  "\<forall>k<maxRetries. \<exists>e. gen k = AiRejected e
     \<Longrightarrow> \<exists>e. fst (generate_loop gen owc retried err waited) = Inl e"
proof (induction gen owc retried err waited rule: generate_loop.induct)
  case (1 gen owc retried error waited)
  show ?case
  proof (cases "retried < maxRetries")
    case True
    with "1.prems" obtain e where e: "gen retried = AiRejected e" by blast
    from "1.IH" [OF True e "1.prems"] obtain e' where
      "fst (generate_loop gen owc (Suc retried) (Some e) (waited @ [backoff_wait (Suc retried)])) = Inl e'"
      by blast
    then show ?thesis using True e by (subst generate_loop.simps) simp
  next
    case False
    then show ?thesis by (subst generate_loop.simps) simp
  qed
qed

text \<open>
  Claim C7. Whatever the text and the options, when every call of the generative
  service fails, \<open>summarize\<close> throws nothing to its caller: it returns a result whose
  summary is the fixed failure message, without key points, whose \<open>summaryWordCount\<close> is
  0 and whose \<open>originalWordCount\<close> is the word count of the input.
\<close>

theorem summarize_degrades_on_failure:
  assumes "\<forall>k<maxRetries. \<exists>e. generateContent env k (generatePrompt content options) = AiRejected e"
  shows "fst (summarize env content options) =
           Inr \<lparr>summary = failure_summary, keyPoints = None,
                originalWordCount = countWords content, summaryWordCount = 0\<rparr>"
proof (cases "initializeModel env")
  case (Inl e)
  then show ?thesis by (simp add: summarize_def)
next
  case (Inr ai)
  let ?loop = "generate_loop (\<lambda>k. generateContent env k (generatePrompt content options))
                 (countWords content) 0 None []"
  from assms obtain e where "fst ?loop = Inl e"
    using generate_loop_all_rejected [of "\<lambda>k. generateContent env k (generatePrompt content options)"]
    by blast
  then obtain w where "?loop = (Inl e, w)" by (cases ?loop) simp
  with Inr show ?thesis by (simp add: summarize_def)
qed

text \<open>
  The same at a service that rejects every call, for the input \<open>one two  three\<close> of
  three words.
\<close>

theorem summarize_degrades_on_failure_witness:
  "fst (summarize failing_env (js ''one two  three'') medium_options) =
     Inr \<lparr>summary = js ''Failed to generate summary. Please try again later.'', keyPoints = None,
          originalWordCount = 3, summaryWordCount = 0\<rparr>"
proof -
  have h: "\<forall>k<maxRetries. \<exists>e.
             generateContent failing_env k (generatePrompt (js ''one two  three'') medium_options)
               = AiRejected e"
    by (simp add: failing_env_def)
  have w: "countWords (js ''one two  three'') = 3"
    by (simp add: countWords_def split_runs.simps js_def is_space_def)
  show ?thesis
    using summarize_degrades_on_failure [OF h] by (simp add: w failure_summary_def)
qed

section \<open>Summarizer: key points\<close>

lemma extractKeyPoints_example:
  "extractKeyPoints
     (js ''Paragraph one.'' @ [10, 10] @ js ''Key Points:'' @ [10] @ js ''- Point A'' @ [10]
        @ js ''- Point B'')
   = (js ''Paragraph one.'', Some [js ''Point A'', js ''Point B''])"
proof -
  define ex where
    "ex = js ''Paragraph one.'' @ [10, 10] @ js ''Key Points:'' @ [10] @ js ''- Point A'' @ [10]
            @ js ''- Point B''"
  have idx: "match_index ex = Some 16"
    unfolding ex_def
    by (simp add: js_def heading_at_def heading_phrases_def matches_ci_def ascii_upper_def)
  have pre: "trim (take 16 ex) = js ''Paragraph one.''"
    unfolding ex_def by (simp add: str_defs)
  have lines:
    "drop (Suc 0) (split_runs is_newline (drop 16 ex)) = [js ''- Point A'', js ''- Point B'']"
    unfolding ex_def by (simp add: str_defs split_runs.simps)
  have items: "is_item (js ''- Point A'')" "is_item (js ''- Point B'')"
    by (simp_all add: is_item_def str_defs)
  have strip: "trim (strip_marker (js ''- Point A'')) = js ''Point A''"
    "trim (strip_marker (js ''- Point B'')) = js ''Point B''"
    by (simp_all add: strip_marker_def str_defs)
  have ne: "js ''Point A'' \<noteq> []" "js ''Point B'' \<noteq> []"
    by (simp_all add: js_def)
  have "extractKeyPoints ex = (js ''Paragraph one.'', Some [js ''Point A'', js ''Point B''])"
    unfolding extractKeyPoints_def idx by (simp add: pre lines items strip ne Let_def)
  then show ?thesis by (simp only: ex_def)
qed

text \<open>
  Claim C8. For the response \<open>Paragraph one.\n\nKey Points:\n- Point A\n- Point B\<close> the
  summary is \<open>Paragraph one.\<close> and the key points are \<open>Point A\<close> and \<open>Point B\<close>; and for
  every response that contains none of the four heading phrases, whatever the case of
  its letters, the summary is the whole response and the key points are absent.
\<close>

theorem extractKeyPoints_parses_key_points:
  "extractKeyPoints
     (js ''Paragraph one.'' @ [10, 10] @ js ''Key Points:'' @ [10] @ js ''- Point A'' @ [10]
        @ js ''- Point B'')
   = (js ''Paragraph one.'', Some [js ''Point A'', js ''Point B''])
   \<and> ((\<forall>p\<in>set heading_phrases. \<not> contains_ignoring_case r p)
        \<longrightarrow> extractKeyPoints r = (r, None))"
proof (intro conjI impI)
  show "extractKeyPoints
     (js ''Paragraph one.'' @ [10, 10] @ js ''Key Points:'' @ [10] @ js ''- Point A'' @ [10]
        @ js ''- Point B'')
   = (js ''Paragraph one.'', Some [js ''Point A'', js ''Point B''])"
    by (rule extractKeyPoints_example)
next
  assume "\<forall>p\<in>set heading_phrases. \<not> contains_ignoring_case r p"
  then have "match_index r = None" by (simp add: match_index_None_iff)
  then show "extractKeyPoints r = (r, None)" by (simp add: extractKeyPoints_def)
qed

text \<open>The second part at a response without heading.\<close>

theorem extractKeyPoints_parses_key_points_witness:
  "extractKeyPoints (js ''Just a plain answer.'') = (js ''Just a plain answer.'', None)"
proof -
  have h: "\<forall>p\<in>set heading_phrases. \<not> contains_ignoring_case (js ''Just a plain answer.'') p"
    by (simp add: heading_phrases_def contains_ignoring_case_def js_def ascii_lower_def)
  from extractKeyPoints_parses_key_points [of "js ''Just a plain answer.''"] h
  show ?thesis by blast
qed

text \<open>
  Claim C10 says that the key points are absent whenever no line after the heading
  begins with a hyphen, a bullet or a digit followed by a full stop. The filter of
  \<open>extractKeyPoints\<close> trims each line before it looks at its beginning, so an indented
  item counts: in \<open>Key Points:\n  - A\<close> the only line after the heading begins with a
  space, and the key points are \<open>A\<close>.
\<close>

theorem extractKeyPoints_indented_item_counterexample:
  "heading_at (js ''Key Points:'' @ [10] @ js ''  - A'')
   \<and> drop 1 (split_runs is_newline (js ''Key Points:'' @ [10] @ js ''  - A'')) = [js ''  - A'']
   \<and> \<not> startsWith (js ''  - A'') [45]
   \<and> \<not> startsWith (js ''  - A'') [8226]
   \<and> \<not> is_digit (hd (js ''  - A''))
   \<and> extractKeyPoints (js ''Key Points:'' @ [10] @ js ''  - A'') = ([], Some [js ''A''])"
proof -
  define ex where "ex = js ''Key Points:'' @ [10] @ js ''  - A''"
  have idx: "match_index ex = Some 0"
    unfolding ex_def
    by (simp add: js_def heading_at_def heading_phrases_def matches_ci_def ascii_upper_def)
  have lines: "drop (Suc 0) (split_runs is_newline ex) = [js ''  - A'']"
    unfolding ex_def by (simp add: str_defs split_runs.simps)
  have items: "is_item (js ''  - A'')"
    by (simp add: is_item_def str_defs)
  have strip: "trim (strip_marker (js ''  - A'')) = js ''A''"
    by (simp add: strip_marker_def str_defs)
  have ne: "js ''A'' \<noteq> []"
    by (simp add: js_def)
  have "extractKeyPoints ex = (trim [], Some [js ''A''])"
    unfolding extractKeyPoints_def idx by (simp add: lines items strip ne Let_def)
  then have result: "extractKeyPoints ex = ([], Some [js ''A''])"
    by (simp add: trim_def)
  have "heading_at ex"
    unfolding ex_def
    by (simp add: js_def heading_at_def heading_phrases_def matches_ci_def ascii_upper_def)
  moreover have "\<not> startsWith (js ''  - A'') [45]" "\<not> startsWith (js ''  - A'') [8226]"
    "\<not> is_digit (hd (js ''  - A''))"
    by (simp_all add: str_defs)
  ultimately have
    "heading_at ex \<and> drop 1 (split_runs is_newline ex) = [js ''  - A'']
     \<and> \<not> startsWith (js ''  - A'') [45] \<and> \<not> startsWith (js ''  - A'') [8226]
     \<and> \<not> is_digit (hd (js ''  - A''))
     \<and> extractKeyPoints ex = ([], Some [js ''A''])"
    using lines result by simp
  then show ?thesis unfolding ex_def .
qed

text \<open>
  Claim C10, amended. Let the response be \<open>pre\<close> followed by \<open>rest\<close>, where a heading
  phrase matches at the start of \<open>rest\<close> and at no earlier position. If no line of
  \<open>rest\<close> after its first begins, once the white space around the line is removed, with
  a hyphen, with a bullet or with digits followed by a full stop, then the key points
  are absent (not an empty list) and the summary is \<open>pre\<close> trimmed: the heading and
  all that follows it are dropped.
\<close>

theorem extractKeyPoints_heading_without_items:
  assumes "r = pre @ rest"
    and "heading_at rest"
    and "\<forall>j<length pre. \<not> heading_at (drop j r)"
    and "\<forall>line\<in>set (drop 1 (split_runs is_newline rest)). \<not> is_item line"
  shows "extractKeyPoints r = (trim pre, None)"
proof -
  have idx: "match_index r = Some (length pre)"
    using assms(1-3) match_index_append by blast
  have none: "filter is_item (drop 1 (split_runs is_newline rest)) = []"
    using assms(4) by (simp add: filter_empty_conv)
  show ?thesis
    unfolding extractKeyPoints_def idx using none by (simp add: assms(1))
qed

text \<open>
  The same at \<open>Summary text.\nKey points:\nnone given\<close>: the summary is
  \<open>Summary text.\<close> and there are no key points.
\<close>

theorem extractKeyPoints_heading_without_items_witness:
  "extractKeyPoints (js ''Summary text.'' @ [10] @ js ''Key points:'' @ [10] @ js ''none given'')
   = (js ''Summary text.'', None)"
proof -
  define pre where "pre = js ''Summary text.'' @ [10]"
  define rest where "rest = js ''Key points:'' @ [10] @ js ''none given''"
  have len: "length pre = 14" by (simp add: pre_def js_def)
  have h2: "heading_at rest"
    unfolding rest_def
    by (simp add: js_def heading_at_def heading_phrases_def matches_ci_def ascii_upper_def)
  have "match_index (pre @ rest) = Some 14"
    unfolding pre_def rest_def
    by (simp add: js_def heading_at_def heading_phrases_def matches_ci_def ascii_upper_def)
  from match_index_SomeD [OF this] len
  have h3: "\<forall>j<length pre. \<not> heading_at (drop j (pre @ rest))" by simp
  have "drop (Suc 0) (split_runs is_newline rest) = [js ''none given'']"
    unfolding rest_def by (simp add: str_defs split_runs.simps)
  moreover have "\<not> is_item (js ''none given'')"
    by (simp add: is_item_def str_defs)
  ultimately have h4: "\<forall>line\<in>set (drop 1 (split_runs is_newline rest)). \<not> is_item line"
    by simp
  have t: "trim pre = js ''Summary text.''"
    by (simp add: pre_def str_defs)
  from extractKeyPoints_heading_without_items [OF refl h2 h3 h4] t
  have "extractKeyPoints (pre @ rest) = (js ''Summary text.'', None)" by simp
  then show ?thesis by (simp add: pre_def rest_def)
qed

section \<open>Fetcher: the retry loop\<close>

lemma fetch_loop_trace:
  "requests st = attempts st \<Longrightarrow> delays st = map backoff_wait [1..<Suc (attempts st)]
     \<Longrightarrow> attempts st = 0 \<or> int (attempts st) \<le> r
     \<Longrightarrow> delays (fetch_loop get r st) = map backoff_wait [1..<requests (fetch_loop get r st)]
         \<and> int (requests (fetch_loop get r st)) \<le> max 0 (r + 1)"
proof (induction get r st rule: fetch_loop.induct)
  case (1 get r st)
  show ?case
  proof (cases "int (attempts st) \<le> r")
    case False
    with "1.prems" have "attempts st = 0" by simp
    with False "1.prems" show ?thesis by (subst (1 2 3) fetch_loop.simps) simp
  next
    case True
    show ?thesis
    proof (cases "get (requests st)")
      case (HttpResolved resp)
      with True "1.prems" show ?thesis by (subst (1 2 3) fetch_loop.simps) simp
    next
      case (HttpRejected error)
      show ?thesis
      proof (cases "int (Suc (attempts st)) > r")
        case last: True
        with True HttpRejected "1.prems" show ?thesis
          by (subst (1 2 3) fetch_loop.simps) simp
      next
        case more: False
        let ?st = "st\<lparr>lastError := Some error, attempts := Suc (attempts st),
                       requests := Suc (requests st),
                       delays := delays st @ [backoff_wait (Suc (attempts st))]\<rparr>"
        have "delays (fetch_loop get r ?st) = map backoff_wait [1..<requests (fetch_loop get r ?st)]
               \<and> int (requests (fetch_loop get r ?st)) \<le> max 0 (r + 1)"
          using more "1.prems" by (intro "1.IH" [OF True HttpRejected more]) simp_all
        moreover have "fetch_loop get r st = fetch_loop get r ?st"
          using True HttpRejected more by (subst fetch_loop.simps) simp
        ultimately show ?thesis by simp
      qed
    qed
  qed
qed

lemma fetch_loop_first_response:
  "\<forall>j. attempts st \<le> j \<and> j < k \<longrightarrow> (\<exists>e. get j = HttpRejected e)
     \<Longrightarrow> get k = HttpResolved resp \<Longrightarrow> int k \<le> r \<Longrightarrow> attempts st \<le> k
     \<Longrightarrow> requests st = attempts st
     \<Longrightarrow> response (fetch_loop get r st) = Some resp \<and> requests (fetch_loop get r st) = Suc k"
proof (induction get r st rule: fetch_loop.induct)
  case (1 get r st)
  from "1.prems" have enter: "int (attempts st) \<le> r" by simp
  show ?case
  proof (cases "attempts st = k")
    case True
    with "1.prems" enter show ?thesis by (subst (1 2) fetch_loop.simps) simp
  next
    case False
    with "1.prems" have lt: "attempts st < k" by simp
    with "1.prems" obtain e where e: "get (requests st) = HttpRejected e" by auto
    from lt "1.prems" have more: "\<not> int (Suc (attempts st)) > r" by simp
    let ?st = "st\<lparr>lastError := Some e, attempts := Suc (attempts st),
                   requests := Suc (requests st),
                   delays := delays st @ [backoff_wait (Suc (attempts st))]\<rparr>"
    have "response (fetch_loop get r ?st) = Some resp \<and> requests (fetch_loop get r ?st) = Suc k"
      using lt "1.prems" by (intro "1.IH" [OF enter e more]) simp_all
    moreover have "fetch_loop get r st = fetch_loop get r ?st"
      using enter e more by (subst fetch_loop.simps) simp
    ultimately show ?thesis by simp
  qed
qed

text \<open>
  The loop asks for \<open>2 ^ k\<close> seconds after the \<open>k\<close>-th failure. Up to the 21st failure
  the timer waits that long; \<open>2 ^ 22\<close> seconds are more than \<open>TIMEOUT_MAX\<close> milliseconds.
\<close>

lemma backoff_wait_eq: "backoff_wait k = (if k \<le> 21 then 2 ^ k * 1000 else 1)"
proof (cases "k \<le> 21")
  case True
  then have "(2::nat) ^ k \<le> 2 ^ 21" by (intro power_increasing) simp_all
  then have "(2::nat) ^ k * 1000 \<le> 2097152000" by simp
  with True show ?thesis
    by (simp add: backoff_wait_def setTimeout_delay_def TIMEOUT_MAX_def)
next
  case False
  then have "(2::nat) ^ 22 \<le> 2 ^ k" by (intro power_increasing) simp_all
  then have "4194304000 \<le> (2::nat) ^ k * 1000" by simp
  with False show ?thesis
    by (simp add: backoff_wait_def setTimeout_delay_def TIMEOUT_MAX_def)
qed

lemma backoff_wait_fun: "backoff_wait = (\<lambda>k. if k \<le> 21 then 2 ^ k * 1000 else 1)"
  by (rule ext) (rule backoff_wait_eq)



lemma fetch_init_trace:
  "delays (fetch_loop get r fetch_init)
     = map backoff_wait [1..<requests (fetch_loop get r fetch_init)]
   \<and> int (requests (fetch_loop get r fetch_init)) \<le> max 0 (r + 1)"
  by (rule fetch_loop_trace) (simp_all add: fetch_init_def)






section \<open>Fetcher: the content type\<close>

lemma scrape_catch_AppError [simp]:
  "scrape_catch cfg u (createNetworkError subtype original ctx) = createNetworkError subtype original ctx"
  by (simp add: scrape_catch_def createNetworkError_def)

text \<open>
  Claim C2 says that a response whose content type is not an HTML media type is
  retried like a failed request. The content type is tested after the retry loop has
  ended: with three retries configured and a server that answers every request with
  \<open>application/json\<close>, the fetch makes one request, waits for no delay and fails with the
  network error \<open>Invalid response from server\<close>.
\<close>

theorem scrapeUrl_non_html_counterexample:
  "retries default_scraper_config = 3
   \<and> scrapeUrl json_env default_scraper_config (js ''example.com'') =
       (Inl (AppError NETWORK (js ''Invalid response from server'')
               (Some (JsError (js ''Response is not HTML content'')))
               (Some [(js ''url'', CStr (js ''https://example.com/'')),
                      (js ''contentType'', CStr (js ''application/json''))])),
        \<lparr>requests_made = 1, delays_waited = []\<rparr>)"
proof -
  have v: "validateUrl (new_URL json_env) (js ''example.com'') = Inr (js ''https://example.com/'')"
    by (simp add: validateUrl_def json_env_def toy_URL_def startsWith_def js_def)
  have l: "fetch_loop (\<lambda>k. axios_get json_env k (js ''https://example.com/'') (requestConfig default_scraper_config))
          (retries default_scraper_config) fetch_init
        = \<lparr>response = Some json_response, attempts = 0, lastError = None, requests = 1, delays = []\<rparr>"
    by (simp add: fetch_loop.simps fetch_init_def json_env_def default_scraper_config_def)
  have c: "contentType_of json_response = js ''application/json''"
    by (simp add: contentType_of_def json_response_def)
  have n: "\<not> includes_js (js ''application/json'') (js ''text/html'')"
    "\<not> includes_js (js ''application/json'') (js ''application/xhtml+xml'')"
    by (simp_all add: js_def)
  have "scrape_try json_env default_scraper_config (js ''example.com'') =
       (Inl (createNetworkError INVALID_RESPONSE (JsError (js ''Response is not HTML content''))
               [(js ''url'', CStr (js ''https://example.com/'')),
                (js ''contentType'', CStr (js ''application/json''))]),
        \<lparr>requests_made = 1, delays_waited = []\<rparr>)"
    unfolding scrape_try_def v by (simp add: l c n trace_of_def)
  then show ?thesis
    by (simp add: scrapeUrl_def createNetworkError_def scrape_catch_def default_scraper_config_def)
qed

text \<open>
  Claim C2, amended. In every fetch whose first \<open>k\<close> requests are rejected and whose
  next request is answered, within the configured retries, by a response whose content
  type is not an HTML media type, that request is the last one: the fetch makes
  \<open>k + 1\<close> requests, has waited only after the \<open>k\<close> rejected ones (for \<open>2 ^ i\<close> seconds
  after the \<open>i\<close>-th, within the range of the timer), and fails with the
  classified network error \<open>Invalid response from server\<close>, which carries the URL and
  the content type.
\<close>

theorem scrapeUrl_non_html_not_retried:
  assumes "validateUrl (new_URL env) u = Inr nu"
    and "\<forall>j<k. \<exists>e. axios_get env j nu (requestConfig cfg) = HttpRejected e"
    and "axios_get env k nu (requestConfig cfg) = HttpResolved resp"
    and "int k \<le> retries cfg"
    and "\<not> is_html (contentType_of resp)"
  shows "scrapeUrl env cfg u =
           (Inl (createNetworkError INVALID_RESPONSE (JsError (js ''Response is not HTML content''))
                   [(js ''url'', CStr nu), (js ''contentType'', CStr (contentType_of resp))]),
            \<lparr>requests_made = Suc k,
             delays_waited = map (\<lambda>i. if i \<le> 21 then 2 ^ i * 1000 else 1) [1..<Suc k]\<rparr>)"
proof -
  let ?get = "\<lambda>j. axios_get env j nu (requestConfig cfg)"
  let ?st = "fetch_loop ?get (retries cfg) fetch_init"
  have "response ?st = Some resp \<and> requests ?st = Suc k"
    using assms(2-4) by (intro fetch_loop_first_response) (simp_all add: fetch_init_def)
  then have r: "response ?st = Some resp" and n: "requests ?st = Suc k" by simp_all
  have "delays ?st = map backoff_wait [1..<requests ?st]"
    using fetch_init_trace [of ?get "retries cfg"] by simp
  with n have "delays ?st = map backoff_wait [1..<Suc k]" by simp
  then have d: "delays ?st = map (\<lambda>i. if i \<le> 21 then 2 ^ i * 1000 else 1) [1..<Suc k]"
    by (simp only: backoff_wait_fun)
  have "scrape_try env cfg u =
          (Inl (createNetworkError INVALID_RESPONSE (JsError (js ''Response is not HTML content''))
                   [(js ''url'', CStr nu), (js ''contentType'', CStr (contentType_of resp))]),
           trace_of ?st)"
    using assms(1,5) r by (simp add: scrape_try_def Let_def is_html_def)
  then show ?thesis
    by (simp add: scrapeUrl_def trace_of_def n d)
qed

text \<open>
  The same where the first request times out and the second is answered with
  \<open>application/json\<close>.
\<close>

theorem scrapeUrl_non_html_not_retried_witness:
  "scrapeUrl flaky_json_env default_scraper_config (js ''example.com'') =
       (Inl (AppError NETWORK (js ''Invalid response from server'')
               (Some (JsError (js ''Response is not HTML content'')))
               (Some [(js ''url'', CStr (js ''https://example.com/'')),
                      (js ''contentType'', CStr (js ''application/json''))])),
        \<lparr>requests_made = 2, delays_waited = [2000]\<rparr>)"
proof -
  have v: "validateUrl (new_URL flaky_json_env) (js ''example.com'') = Inr (js ''https://example.com/'')"
    by (simp add: validateUrl_def flaky_json_env_def toy_URL_def startsWith_def js_def)
  have h2: "\<forall>j<Suc 0. \<exists>e. axios_get flaky_json_env j (js ''https://example.com/'')
               (requestConfig default_scraper_config) = HttpRejected e"
    by (simp add: flaky_json_env_def)
  have h3: "axios_get flaky_json_env (Suc 0) (js ''https://example.com/'')
               (requestConfig default_scraper_config) = HttpResolved json_response"
    by (simp add: flaky_json_env_def)
  have h4: "int (Suc 0) \<le> retries default_scraper_config"
    by (simp add: default_scraper_config_def)
  have c: "contentType_of json_response = js ''application/json''"
    by (simp add: contentType_of_def json_response_def)
  have h5: "\<not> is_html (contentType_of json_response)"
    unfolding c by (simp add: is_html_def js_def)
  from scrapeUrl_non_html_not_retried [OF v h2 h3 h4 h5] show ?thesis
    by (simp add: c createNetworkError_def)
qed

section \<open>Fetcher: validation of the URL\<close>

text \<open>
  Claim C3. A string that starts with neither \<open>http://\<close> nor \<open>https://\<close>, as every
  string without a scheme does, is handed to the URL parser with \<open>https://\<close> in front:
  it is rejected with the network error \<open>Invalid URL format\<close> when the parser fails on
  that string, and accepted with the parsed URL otherwise. For every string, an accepted
  result is what the parser made of the (possibly prefixed) string, and a rejection is
  a network error with the message \<open>Invalid URL format\<close>.
\<close>

theorem validateUrl_prepends_and_rejects:
  "(\<not> startsWith u (js ''http://'') \<and> \<not> startsWith u (js ''https://'')
      \<longrightarrow> validateUrl ctor u =
            (case ctor (js ''https://'' @ u) of
               Inl e \<Rightarrow> Inl (createNetworkError INVALID_URL e [(js ''url'', CStr (js ''https://'' @ u))])
             | Inr p \<Rightarrow> Inr (href p)))
   \<and> (validateUrl ctor u = Inr h
      \<longrightarrow> (\<exists>p. ctor (if \<not> startsWith u (js ''http://'') \<and> \<not> startsWith u (js ''https://'')
                      then js ''https://'' @ u else u) = Inr p \<and> h = href p))
   \<and> (validateUrl ctor u = Inl x
      \<longrightarrow> etype x = NETWORK \<and> message x = js ''Invalid URL format'')"
  by (auto simp: validateUrl_def Let_def createNetworkError_def split: sum.splits)

text \<open>
  The same at \<open>example.com\<close>, which is accepted as \<open>https://example.com/\<close>, and at
  \<open>not a url\<close>, which is rejected.
\<close>

theorem validateUrl_prepends_and_rejects_witness:
  "validateUrl toy_URL (js ''example.com'') = Inr (js ''https://example.com/'')
   \<and> validateUrl toy_URL (js ''not a url'')
       = Inl (AppError NETWORK (js ''Invalid URL format'') (Some (JsError (js ''Invalid URL'')))
                (Some [(js ''url'', CStr (js ''https://not a url''))]))"
proof -
  have p1: "\<not> startsWith (js ''example.com'') (js ''http://'') \<and> \<not> startsWith (js ''example.com'') (js ''https://'')"
    by (simp add: startsWith_def js_def)
  have p2: "\<not> startsWith (js ''not a url'') (js ''http://'') \<and> \<not> startsWith (js ''not a url'') (js ''https://'')"
    by (simp add: startsWith_def js_def)
  have c1: "toy_URL (js ''https://'' @ js ''example.com'')
              = Inr \<lparr>href = js ''https://example.com/'', hostname = js ''example.com''\<rparr>"
    by (simp add: toy_URL_def js_def)
  have c2: "toy_URL (js ''https://'' @ js ''not a url'') = Inl (JsError (js ''Invalid URL''))"
    by (simp add: toy_URL_def js_def)
  have j: "js ''https://'' @ js ''not a url'' = js ''https://not a url''" by (simp add: js_def)
  from validateUrl_prepends_and_rejects [of "js ''example.com''" toy_URL "[]" "JsError []", THEN conjunct1, rule_format, OF p1]
  have "validateUrl toy_URL (js ''example.com'') = Inr (js ''https://example.com/'')"
    by (simp only: c1 sum.case URL.simps)
  moreover
  from validateUrl_prepends_and_rejects [of "js ''not a url''" toy_URL "[]" "JsError []", THEN conjunct1, rule_format, OF p2]
  have "validateUrl toy_URL (js ''not a url'')
       = Inl (createNetworkError INVALID_URL (JsError (js ''Invalid URL''))
                [(js ''url'', CStr (js ''https://'' @ js ''not a url''))])"
    by (simp only: c2 sum.case)
  then have "validateUrl toy_URL (js ''not a url'')
       = Inl (AppError NETWORK (js ''Invalid URL format'') (Some (JsError (js ''Invalid URL'')))
                (Some [(js ''url'', CStr (js ''https://not a url''))]))"
    by (simp add: createNetworkError_def j)
  ultimately show ?thesis by simp
qed

section \<open>Extractor: title and main content\<close>

lemma title_loop_find:
  "title_loop Q sels =
     (case List.find (\<lambda>sel. query Q sel \<noteq> []) sels of
        None \<Rightarrow> None
      | Some sel \<Rightarrow> Some (first_match_text Q sel))"
  by (induction sels) (simp_all add: first_match_text_def)

text \<open>
  Claim C4, amended. Title resolution goes through the selector list in order and
  stops at the first selector that matches any element; the title is the trimmed text
  of the first element it matches. If that text is empty, the title is the host name
  of the URL. Only when no selector of the list matches is the trimmed text of the
  \<open>title\<close> element used, and the host name of the URL when that text is empty too.
\<close>

theorem extractTitle_first_match_wins:
  "(List.find (\<lambda>s. query Q s \<noteq> []) titleSelectors = Some sel \<and> first_match_text Q sel \<noteq> []
      \<longrightarrow> extractContent_title Q ctor u = Inr (first_match_text Q sel))
   \<and> (List.find (\<lambda>s. query Q s \<noteq> []) titleSelectors = Some sel \<and> first_match_text Q sel = []
        \<and> ctor u = Inr parsed
      \<longrightarrow> extractContent_title Q ctor u = Inr (hostname parsed))
   \<and> (List.find (\<lambda>s. query Q s \<noteq> []) titleSelectors = None
        \<and> trim (text_of Q (query Q (js ''title''))) \<noteq> []
      \<longrightarrow> extractContent_title Q ctor u = Inr (trim (text_of Q (query Q (js ''title'')))))
   \<and> (List.find (\<lambda>s. query Q s \<noteq> []) titleSelectors = None
        \<and> trim (text_of Q (query Q (js ''title''))) = [] \<and> ctor u = Inr parsed
      \<longrightarrow> extractContent_title Q ctor u = Inr (hostname parsed))"
  by (simp add: extractContent_title_def extractTitle_def title_loop_find Let_def)

lemma trim_replicate: "\<not> is_space c \<Longrightarrow> trim (replicate n c) = replicate n c"
  by (cases n) (simp_all add: trim_def replicate_append_same [symmetric] del: replicate_Suc)

lemma empty_heading_doc_texts:
  "map (first_match_text empty_heading_doc) titleSelectors = [[], [], [], [], [], [], [], [], []]"
  by (simp add: titleSelectors_def first_match_text_def empty_heading_doc_def elements_text_def
      trim_def js_def)

lemma empty_heading_doc_find:
  "List.find (\<lambda>s. query empty_heading_doc s \<noteq> []) titleSelectors = Some (js ''h1'')"
  by (simp add: titleSelectors_def empty_heading_doc_def js_def)

text \<open>
  Claim C4 says that the first match with a non-empty text wins, and that the \<open>title\<close>
  element is used when no selector gives a non-empty text. The loop of \<open>extractTitle\<close>
  returns at the first selector that matches, whatever its text: in a document with an
  empty \<open>h1\<close> and the title \<open>T\<close>, no selector gives a non-empty text, the \<open>title\<close>
  element holds \<open>T\<close>, and the resolved title is the host name.
\<close>

theorem extractTitle_empty_heading_counterexample:
  "map (first_match_text empty_heading_doc) titleSelectors = [[], [], [], [], [], [], [], [], []]
   \<and> trim (text_of empty_heading_doc (query empty_heading_doc (js ''title''))) = js ''T''
   \<and> extractContent_title empty_heading_doc toy_URL (js ''https://example.com'')
       = Inr (js ''example.com'')"
proof -
  have t: "trim (text_of empty_heading_doc (query empty_heading_doc (js ''title''))) = js ''T''"
    by (simp add: empty_heading_doc_def elements_text_def trim_def js_def is_space_def)
  have l: "title_loop empty_heading_doc titleSelectors = Some []"
    by (simp add: title_loop_find empty_heading_doc_find)
      (simp add: first_match_text_def empty_heading_doc_def elements_text_def trim_def js_def)
  have u: "toy_URL (js ''https://example.com'')
             = Inr \<lparr>href = js ''https://example.com/'', hostname = js ''example.com''\<rparr>"
    by (simp add: toy_URL_def)
  have "extractContent_title empty_heading_doc toy_URL (js ''https://example.com'')
       = Inr (js ''example.com'')"
    by (simp add: extractContent_title_def extractTitle_def l u)
  with empty_heading_doc_texts t show ?thesis by blast
qed

text \<open>
  The same at a document whose \<open>h1\<close> holds \<open>Hello\<close> between spaces, and at the document
  with the empty \<open>h1\<close>.
\<close>

theorem extractTitle_first_match_wins_witness:
  "extractContent_title heading_doc toy_URL (js ''https://example.com'') = Inr (js ''Hello'')
   \<and> extractContent_title empty_heading_doc toy_URL (js ''https://example.com'')
       = Inr (js ''example.com'')"
proof -
  have f: "List.find (\<lambda>s. query heading_doc s \<noteq> []) titleSelectors = Some (js ''h1'')"
    by (simp add: titleSelectors_def heading_doc_def js_def)
  have t: "first_match_text heading_doc (js ''h1'') = js ''Hello''"
    by (simp add: first_match_text_def heading_doc_def elements_text_def trim_def js_def is_space_def)
  have ne: "js ''Hello'' \<noteq> []" by (simp add: js_def)
  have t0: "first_match_text empty_heading_doc (js ''h1'') = []"
    by (simp add: first_match_text_def empty_heading_doc_def elements_text_def trim_def js_def)
  have u: "toy_URL (js ''https://example.com'')
             = Inr \<lparr>href = js ''https://example.com/'', hostname = js ''example.com''\<rparr>"
    by (simp add: toy_URL_def)
  from extractTitle_first_match_wins [of heading_doc "js ''h1''" toy_URL "js ''https://example.com''"
               "\<lparr>href = js ''https://example.com/'', hostname = js ''example.com''\<rparr>"]
    f t ne
  have a: "extractContent_title heading_doc toy_URL (js ''https://example.com'') = Inr (js ''Hello'')"
    by simp
  from extractTitle_first_match_wins [of empty_heading_doc "js ''h1''" toy_URL "js ''https://example.com''"
               "\<lparr>href = js ''https://example.com/'', hostname = js ''example.com''\<rparr>"]
    empty_heading_doc_find t0 u
  have b: "extractContent_title empty_heading_doc toy_URL (js ''https://example.com'')
       = Inr (js ''example.com'')"
    by simp
  from a b show ?thesis by blast
qed

lemma content_loop_find:
  "content_loop Q sels =
     (case List.find (\<lambda>s. query Q s \<noteq> [] \<and> 200 < length (first_match_text Q s)) sels of
        None \<Rightarrow> None
      | Some sel \<Rightarrow> Some (take 1 (query Q sel)))"
  by (induction sels) (simp_all add: first_match_text_def)

text \<open>
  Claim C5, amended. If, for some selector of the list of semantic containers, the
  first element it matches has a trimmed text of more than 200 characters, then the
  main content is that first element of the earliest such selector in the order of the
  list, and the paragraph-density fallback is not consulted: the result is the same
  whatever \<open>find\<close>, by which the fallback looks for containers and counts their
  paragraphs, would return.
\<close>

theorem findMainContent_semantic_container_first:
  assumes "List.find (\<lambda>s. query Q s \<noteq> [] \<and> 200 < length (first_match_text Q s)) contentSelectors
             = Some sel"
  shows "findMainContent Q = take 1 (query Q sel)
    \<and> findMainContent (Q\<lparr>find_in := f\<rparr>) = take 1 (query Q sel)"
proof -
  have "content_loop Q contentSelectors = Some (take 1 (query Q sel))"
    using assms by (simp add: content_loop_find)
  moreover have "content_loop (Q\<lparr>find_in := f\<rparr>) contentSelectors = Some (take 1 (query Q sel))"
    using assms by (simp add: content_loop_find first_match_text_def)
  ultimately show ?thesis by (simp add: findMainContent_def)
qed

lemma paragraphContainers_Cons:
  "filter (\<lambda>(element, count). 2 < count) (map (\<lambda>e. (e, cnt e)) (a # C)) =
     (if 2 < cnt a then [(a, cnt a)] else [])
     @ filter (\<lambda>(element, count). 2 < count) (map (\<lambda>e. (e, cnt e)) C)"
  by simp

lemma paragraphContainers_empty:
  "filter (\<lambda>(element, count). 2 < count) (map (\<lambda>e. (e, cnt e)) C) = []
     \<longleftrightarrow> (\<forall>e\<in>set C. cnt e \<le> (2::nat))"
  by (induction C) auto

lemma densest_first:
  fixes cnt :: "'e \<Rightarrow> nat"
  assumes "\<exists>e\<in>set C. 2 < cnt e"
  shows "\<exists>pre c post others. C = pre @ c # post
           \<and> sort_by_count_desc (filter (\<lambda>(element, count). 2 < count) (map (\<lambda>e. (e, cnt e)) C))
               = (c, cnt c) # others
           \<and> 2 < cnt c \<and> (\<forall>e\<in>set pre. cnt e < cnt c) \<and> (\<forall>e\<in>set post. cnt e \<le> cnt c)"
  using assms
proof (induction C)
  case Nil
  then show ?case by simp
next
  case (Cons a C)
  let ?cands = "\<lambda>C. filter (\<lambda>(element, count). 2 < count) (map (\<lambda>e. (e, cnt e)) C)"
  show ?case
  proof (cases "\<exists>e\<in>set C. 2 < cnt e")
    case False
    with Cons.prems have a: "2 < cnt a" by auto
    from False have "?cands C = []" by (simp add: paragraphContainers_empty not_less)
    with a have "sort_by_count_desc (?cands (a # C)) = [(a, cnt a)]"
      by (simp add: sort_by_count_desc_def)
    moreover from False a have "\<forall>e\<in>set C. cnt e \<le> cnt a" by (auto simp: not_less)
    ultimately have
      "a # C = [] @ a # C \<and> sort_by_count_desc (?cands (a # C)) = (a, cnt a) # []
       \<and> 2 < cnt a \<and> (\<forall>e\<in>set []. cnt e < cnt a) \<and> (\<forall>e\<in>set C. cnt e \<le> cnt a)"
      using a by simp
    then show ?thesis by blast
  next
    case True
    from Cons.IH [OF True] obtain pre c post others where ih:
      "C = pre @ c # post" "sort_by_count_desc (?cands C) = (c, cnt c) # others"
      "2 < cnt c" "\<forall>e\<in>set pre. cnt e < cnt c" "\<forall>e\<in>set post. cnt e \<le> cnt c"
      by blast
    show ?thesis
    proof (cases "2 < cnt a \<and> cnt c \<le> cnt a")
      case first: True
      then have "sort_by_count_desc (?cands (a # C)) = (a, cnt a) # (c, cnt c) # others"
        using ih(2) by (simp add: sort_by_count_desc_def)
      moreover have "\<forall>e\<in>set C. cnt e \<le> cnt a"
        using ih(1,4,5) first by auto
      ultimately have
        "a # C = [] @ a # C
         \<and> sort_by_count_desc (?cands (a # C)) = (a, cnt a) # ((c, cnt c) # others)
         \<and> 2 < cnt a \<and> (\<forall>e\<in>set []. cnt e < cnt a) \<and> (\<forall>e\<in>set C. cnt e \<le> cnt a)"
        using first by simp
      then show ?thesis by blast
    next
      case later: False
      have "\<exists>others'. sort_by_count_desc (?cands (a # C)) = (c, cnt c) # others'"
      proof (cases "2 < cnt a")
        case True
        with later have "cnt a < cnt c" by simp
        with True ih(2) show ?thesis by (simp add: sort_by_count_desc_def)
      next
        case False
        with ih(2) show ?thesis by simp
      qed
      then obtain others' where
        s: "sort_by_count_desc (?cands (a # C)) = (c, cnt c) # others'" by blast
      from later ih(3) have "cnt a < cnt c" by auto
      with ih(4) have "\<forall>e\<in>set (a # pre). cnt e < cnt c" by simp
      with s ih(1,3,5) have
        "a # C = (a # pre) @ c # post
         \<and> sort_by_count_desc (?cands (a # C)) = (c, cnt c) # others'
         \<and> 2 < cnt c \<and> (\<forall>e\<in>set (a # pre). cnt e < cnt c) \<and> (\<forall>e\<in>set post. cnt e \<le> cnt c)"
        by simp
      then show ?thesis by blast
    qed
  qed
qed

text \<open>
  Claim C6. When no semantic container qualifies, let the containers be the \<open>div\<close>,
  \<open>section\<close> and \<open>main\<close> descendants of the body in document order. If one of them has
  more than 2 paragraph descendants, the main content is a container \<open>c\<close> with more than
  2 paragraphs such that every container before it has strictly fewer paragraphs and
  every container after it has at most as many: the highest count wins, and of two
  containers with that count the first in document order. If no container has more
  than 2 paragraphs, the main content is the body.
\<close>

theorem findMainContent_paragraph_density_fallback:
  fixes Q :: "'e cheerio"
  defines "containers \<equiv> find_in Q (query Q (js ''body'')) (js ''div, section, main'')"
    and "paragraphs \<equiv> \<lambda>element. length (find_in Q [element] (js ''p''))"
  assumes "List.find (\<lambda>s. query Q s \<noteq> [] \<and> 200 < length (first_match_text Q s)) contentSelectors
             = None"
  shows "((\<exists>e\<in>set containers. 2 < paragraphs e) \<longrightarrow>
           (\<exists>pre c post. containers = pre @ c # post \<and> findMainContent Q = [c]
              \<and> 2 < paragraphs c
              \<and> (\<forall>e\<in>set pre. paragraphs e < paragraphs c)
              \<and> (\<forall>e\<in>set post. paragraphs e \<le> paragraphs c)))
    \<and> ((\<forall>e\<in>set containers. paragraphs e \<le> 2) \<longrightarrow> findMainContent Q = query Q (js ''body''))"
proof -
  have loop: "content_loop Q contentSelectors = None"
    using assms(3) by (simp add: content_loop_find)
  have pc: "paragraphContainers Q
              = filter (\<lambda>(element, count). 2 < count) (map (\<lambda>e. (e, paragraphs e)) containers)"
    by (simp add: paragraphContainers_def containers_def paragraphs_def)
  show ?thesis
  proof (intro conjI impI)
    assume "\<exists>e\<in>set containers. 2 < paragraphs e"
    from densest_first [OF this] obtain pre c post others where d:
      "containers = pre @ c # post"
      "sort_by_count_desc (paragraphContainers Q) = (c, paragraphs c) # others"
      "2 < paragraphs c" "\<forall>e\<in>set pre. paragraphs e < paragraphs c"
      "\<forall>e\<in>set post. paragraphs e \<le> paragraphs c"
      unfolding pc by blast
    from loop d(2) have "findMainContent Q = [c]" by (simp add: findMainContent_def)
    with d show "\<exists>pre c post. containers = pre @ c # post \<and> findMainContent Q = [c]
              \<and> 2 < paragraphs c
              \<and> (\<forall>e\<in>set pre. paragraphs e < paragraphs c)
              \<and> (\<forall>e\<in>set post. paragraphs e \<le> paragraphs c)"
      by blast
  next
    assume "\<forall>e\<in>set containers. paragraphs e \<le> 2"
    then have "paragraphContainers Q = []"
      unfolding pc by (simp add: paragraphContainers_empty)
    with loop show "findMainContent Q = query Q (js ''body'')"
      by (simp add: findMainContent_def sort_by_count_desc_def)
  qed
qed

lemma x_not_space: "\<not> is_space 120"
  by (simp add: is_space_def)

lemma two_articles_doc_loop:
  "List.find (\<lambda>s. query two_articles_doc s \<noteq> [] \<and> 200 < length (first_match_text two_articles_doc s))
     contentSelectors = None"
  by (simp add: contentSelectors_def two_articles_doc_def first_match_text_def elements_text_def
      trim_def js_def is_space_def)

text \<open>
  Claim C5 speaks of a selector that matches an element of more than 200 characters of
  text. \<open>findMainContent\<close> looks only at the first element each selector matches: in a
  body with two \<open>article\<close> elements, the first of 6 characters and the second of 201,
  the selector \<open>article\<close> matches the second one, yet the main content is the body, the
  last resort of the fallback.
\<close>

theorem findMainContent_second_article_counterexample:
  "js ''article'' \<in> set contentSelectors
   \<and> query two_articles_doc (js ''article'') = [1, 2]
   \<and> length (trim (text_of two_articles_doc [2])) = 201
   \<and> query two_articles_doc (js ''body'') = [0]
   \<and> findMainContent two_articles_doc = [0]"
proof -
  have a: "js ''article'' \<in> set contentSelectors"
    by (simp add: contentSelectors_def)
  have b: "query two_articles_doc (js ''article'') = [1, 2]"
    by (simp add: two_articles_doc_def)
  have "text_of two_articles_doc [2] = replicate 201 120"
    by (simp add: two_articles_doc_def elements_text_def)
  then have c: "length (trim (text_of two_articles_doc [2])) = 201"
    by (simp add: trim_replicate x_not_space)
  have d: "query two_articles_doc (js ''body'') = [0]"
    by (simp add: two_articles_doc_def js_def)
  have "content_loop two_articles_doc contentSelectors = None"
    by (simp add: content_loop_find two_articles_doc_loop)
  moreover have "paragraphContainers two_articles_doc = []"
    by (simp add: paragraphContainers_def two_articles_doc_def)
  ultimately have e: "findMainContent two_articles_doc = [0]"
    by (simp add: findMainContent_def sort_by_count_desc_def d)
  from a b c d e show ?thesis by blast
qed

text \<open>
  The same at a document with an \<open>article\<close> of 201 characters without paragraphs and a
  \<open>div\<close> of five paragraphs: the article is the main content.
\<close>

theorem findMainContent_semantic_container_first_witness:
  "findMainContent article_and_div_doc = [1]
   \<and> length (find_in article_and_div_doc [2] (js ''p'')) = 5
   \<and> length (find_in article_and_div_doc [1] (js ''p'')) = 0"
proof -
  have t: "first_match_text article_and_div_doc (js ''article'') = replicate 201 120"
    by (simp add: first_match_text_def article_and_div_doc_def elements_text_def
        trim_replicate x_not_space)
  have q: "query article_and_div_doc (js ''article'') = [1]"
    by (simp add: article_and_div_doc_def)
  have h: "List.find (\<lambda>s. query article_and_div_doc s \<noteq> []
                         \<and> 200 < length (first_match_text article_and_div_doc s)) contentSelectors
             = Some (js ''article'')"
    by (simp add: contentSelectors_def t q)
  from findMainContent_semantic_container_first [OF h, of "find_in article_and_div_doc"]
  have "findMainContent article_and_div_doc = [1]" by (simp add: q)
  moreover have "length (find_in article_and_div_doc [2] (js ''p'')) = 5"
    "length (find_in article_and_div_doc [1] (js ''p'')) = 0"
    by (simp_all add: article_and_div_doc_def js_def)
  ultimately show ?thesis by blast
qed

lemma three_divs_doc_loop:
  "List.find (\<lambda>s. query three_divs_doc s \<noteq> [] \<and> 200 < length (first_match_text three_divs_doc s))
     contentSelectors = None"
  by (simp add: contentSelectors_def three_divs_doc_def js_def)

lemma three_divs_doc_containers:
  "find_in three_divs_doc (query three_divs_doc (js ''body'')) (js ''div, section, main'') = [1, 2, 3]"
  "length (find_in three_divs_doc [1] (js ''p'')) = 3"
  "length (find_in three_divs_doc [2] (js ''p'')) = 5"
  "length (find_in three_divs_doc [3] (js ''p'')) = 5"
  by (simp_all add: three_divs_doc_def js_def)

lemma three_divs_doc_result: "findMainContent three_divs_doc = [2]"
proof -
  have "content_loop three_divs_doc contentSelectors = None"
    by (simp add: content_loop_find three_divs_doc_loop)
  moreover have "paragraphContainers three_divs_doc = [(1, 3), (2, 5), (3, 5)]"
    unfolding paragraphContainers_def three_divs_doc_containers(1)
    by (simp add: three_divs_doc_containers [unfolded One_nat_def])
  then have "sort_by_count_desc (paragraphContainers three_divs_doc) = [(2, 5), (3, 5), (1, 3)]"
    by (simp add: sort_by_count_desc_def)
  ultimately show ?thesis by (simp add: findMainContent_def)
qed

text \<open>
  The same at a body with three \<open>div\<close> elements of 3, 5 and 5 paragraphs: the second
  one is the main content.
\<close>

theorem findMainContent_paragraph_density_fallback_witness:
  "find_in three_divs_doc (query three_divs_doc (js ''body'')) (js ''div, section, main'') = [1, 2, 3]
   \<and> length (find_in three_divs_doc [1] (js ''p'')) = 3
   \<and> length (find_in three_divs_doc [2] (js ''p'')) = 5
   \<and> length (find_in three_divs_doc [3] (js ''p'')) = 5
   \<and> findMainContent three_divs_doc = [2]
   \<and> (\<exists>pre c post. [1, 2, 3] = pre @ c # post \<and> findMainContent three_divs_doc = [c]
        \<and> 2 < length (find_in three_divs_doc [c] (js ''p''))
        \<and> (\<forall>e\<in>set pre. length (find_in three_divs_doc [e] (js ''p''))
                           < length (find_in three_divs_doc [c] (js ''p'')))
        \<and> (\<forall>e\<in>set post. length (find_in three_divs_doc [e] (js ''p''))
                            \<le> length (find_in three_divs_doc [c] (js ''p''))))"
proof -
  note c = three_divs_doc_containers
  have ex: "\<exists>e\<in>set (find_in three_divs_doc (query three_divs_doc (js ''body'')) (js ''div, section, main'')).
              2 < length (find_in three_divs_doc [e] (js ''p''))"
    unfolding c(1) using c(3) by simp
  from findMainContent_paragraph_density_fallback [OF three_divs_doc_loop, THEN conjunct1, rule_format, OF ex]
  have "\<exists>pre c post. [1, 2, 3] = pre @ c # post \<and> findMainContent three_divs_doc = [c]
        \<and> 2 < length (find_in three_divs_doc [c] (js ''p''))
        \<and> (\<forall>e\<in>set pre. length (find_in three_divs_doc [e] (js ''p''))
                           < length (find_in three_divs_doc [c] (js ''p'')))
        \<and> (\<forall>e\<in>set post. length (find_in three_divs_doc [e] (js ''p''))
                            \<le> length (find_in three_divs_doc [c] (js ''p'')))"
    unfolding c(1) .
  with c three_divs_doc_result show ?thesis by blast
qed

section \<open>Formatter: rendering\<close>

text \<open>
  Claim C9. Converting the same summary text and formatting it with the same metadata
  gives the same document at any two times: when the metadata carries a date, the
  document does not depend on the clock. The locale and the time zone of the process,
  and the converter, are the same in both renderings.
\<close>

theorem render_independent_of_clock:
  assumes "truthy (meta_date m)"
  shows "render (rt\<lparr>now := t1\<rparr>) service summaryText m = render (rt\<lparr>now := t2\<rparr>) service summaryText m"
  using assms
  by (simp add: render_def formatOutput_def convertToMarkdown_def configureTurndown_def Let_def)

lemma sample_document:
  "render (sample_runtime\<lparr>now := t\<rparr>) plain_turndown (js ''Summary.'') sample_metadata =
     js ''# T'' @ [10, 10] @ js ''## Article Information'' @ [10, 10]
     @ js ''**Source:** [https://example.com/](https://example.com/)'' @ [10, 10]
     @ js ''**Date Summarized:** 1/1/1970'' @ [10, 10] @ js ''---'' @ [10, 10]
     @ js ''## Summary'' @ [10, 10] @ js ''Summary.''"
  by (simp add: render_def formatOutput_def convertToMarkdown_def configureTurndown_def Let_def
      sample_runtime_def sample_metadata_def plain_turndown_def truthy_def js_def)

text \<open>
  The same for two renderings one day apart, with the document they both produce.
\<close>

theorem render_independent_of_clock_witness:
  "render (sample_runtime\<lparr>now := 0\<rparr>) plain_turndown (js ''Summary.'') sample_metadata
     = render (sample_runtime\<lparr>now := 86400000\<rparr>) plain_turndown (js ''Summary.'') sample_metadata
   \<and> render (sample_runtime\<lparr>now := 0\<rparr>) plain_turndown (js ''Summary.'') sample_metadata =
     js ''# T'' @ [10, 10] @ js ''## Article Information'' @ [10, 10]
     @ js ''**Source:** [https://example.com/](https://example.com/)'' @ [10, 10]
     @ js ''**Date Summarized:** 1/1/1970'' @ [10, 10] @ js ''---'' @ [10, 10]
     @ js ''## Summary'' @ [10, 10] @ js ''Summary.''"
proof -
  have h: "truthy (meta_date sample_metadata)"
    by (simp add: truthy_def sample_metadata_def js_def)
  from render_independent_of_clock [OF h, where rt = sample_runtime and ?t1.0 = 0 and ?t2.0 = 86400000
        and service = plain_turndown and summaryText = "js ''Summary.''"]
    sample_document [of 0]
  show ?thesis by blast
qed

text \<open>
  The date is what makes the two renderings equal: metadata without a date is stamped
  with the current date.
\<close>

lemma render_without_date_reads_clock:
  "render (sample_runtime\<lparr>now := 0\<rparr>) plain_turndown (js ''Summary.'') undated_metadata
     \<noteq> render (sample_runtime\<lparr>now := 86400000\<rparr>) plain_turndown (js ''Summary.'') undated_metadata"
  by (simp add: render_def formatOutput_def convertToMarkdown_def configureTurndown_def Let_def
      sample_runtime_def undated_metadata_def plain_turndown_def truthy_def js_def)

end
